theory Spec2Isabelle
  imports Complex_Main "HOL-Library.Log_Nat"
begin

section \<open>JavaScript values used by the product controller\<close>

text \<open>
  The handlers of \<^verbatim>\<open>server/controllers/productController.js\<close> read query-string
  parameters (strings, or \<^verbatim>\<open>undefined\<close> when the parameter is not supplied) and JSON
  body fields. Numbers are JavaScript doubles: a finite number is kept as the rational it
  denotes, and every arithmetic result is rounded to the nearest double (\<open>toDouble\<close>). The
  sign of zero is not kept. Strings are taken to be ASCII.
\<close>

datatype jsnum = NaN | PosInf | NegInf | Fin rat

datatype jsval = Undefined | Null | Bool bool | Num jsnum | Str string

text \<open>\<^verbatim>\<open>if (x)\<close> and \<^verbatim>\<open>!x\<close> on a body field: ToBoolean.\<close>

fun truthy :: "jsval \<Rightarrow> bool" where
  "truthy Undefined = False"
| "truthy Null = False"
| "truthy (Bool b) = b"
| "truthy (Num NaN) = False"
| "truthy (Num (Fin r)) = (r \<noteq> 0)"
| "truthy (Num _) = True"
| "truthy (Str s) = (s \<noteq> [])"

text \<open>\<^verbatim>\<open>if (p)\<close> on a query-string parameter: supplied and not the empty string.\<close>

fun given :: "string option \<Rightarrow> bool" where
  "given None = False"
| "given (Some s) = (s \<noteq> [])"

subsection \<open>Doubles\<close>

text \<open>
  The greatest \<open>k\<close> with \<open>2^k \<le> x\<close>, for a positive \<open>x\<close>: the bit lengths of numerator
  and denominator give it up to one.
\<close>

definition floorLog2 :: "rat \<Rightarrow> int" where
  "floorLog2 x =
     (let k = bitlen (fst (quotient_of x)) - bitlen (snd (quotient_of x))
      in if power_int 2 k \<le> x then k else k - 1)"

definition roundHalfEven :: "rat \<Rightarrow> int" where
  "roundHalfEven x =
     (let f = \<lfloor>x\<rfloor>; d = x - of_int f
      in if d < 1 / 2 then f else if 1 / 2 < d then f + 1 else if even f then f else f + 1)"

text \<open>
  Rounding to the nearest double, ties to the even significand: 53 bits of significand, the
  unit in the last place not below \<open>2^-1074\<close>, and infinity from \<open>2^1024\<close> on.
\<close>

definition toDouble :: "rat \<Rightarrow> jsnum" where
  "toDouble x =
     (if x = 0 then Fin 0
      else let e = max (floorLog2 \<bar>x\<bar> - 52) (- 1074);
               m = roundHalfEven (\<bar>x\<bar> / power_int 2 e)
           in if 971 < e then (if 0 < x then PosInf else NegInf)
              else if e = 971 \<and> m = 9007199254740992 then (if 0 < x then PosInf else NegInf)
              else Fin (if 0 < x then of_int m * power_int 2 e else - (of_int m * power_int 2 e)))"

fun jsNeg :: "jsnum \<Rightarrow> jsnum" where
  "jsNeg (Fin a) = Fin (- a)"
| "jsNeg PosInf = NegInf"
| "jsNeg NegInf = PosInf"
| "jsNeg NaN = NaN"

text \<open>\<^verbatim>\<open>x + y\<close> on numbers, which is also the sum that \<^verbatim>\<open>$inc\<close> stores.\<close>

fun jsAdd :: "jsnum \<Rightarrow> jsnum \<Rightarrow> jsnum" where
  "jsAdd (Fin a) (Fin b) = toDouble (a + b)"
| "jsAdd NaN y = NaN"
| "jsAdd x NaN = NaN"
| "jsAdd PosInf NegInf = NaN"
| "jsAdd NegInf PosInf = NaN"
| "jsAdd PosInf y = PosInf"
| "jsAdd x PosInf = PosInf"
| "jsAdd NegInf y = NegInf"
| "jsAdd x NegInf = NegInf"

definition jsSub :: "jsnum \<Rightarrow> jsnum \<Rightarrow> jsnum" where
  "jsSub x y = jsAdd x (jsNeg y)"

fun isNegative :: "jsnum \<Rightarrow> bool" where
  "isNegative (Fin a) = (a < 0)"
| "isNegative NegInf = True"
| "isNegative x = False"

fun jsMul :: "jsnum \<Rightarrow> jsnum \<Rightarrow> jsnum" where
  "jsMul (Fin a) (Fin b) = toDouble (a * b)"
| "jsMul x y =
     (if x = NaN \<or> y = NaN \<or> x = Fin 0 \<or> y = Fin 0 then NaN
      else if isNegative x = isNegative y then PosInf else NegInf)"

fun jsDiv :: "jsnum \<Rightarrow> jsnum \<Rightarrow> jsnum" where
  "jsDiv (Fin a) (Fin b) =
     (if b = 0 then (if a = 0 then NaN else if 0 < a then PosInf else NegInf)
      else toDouble (a / b))"
| "jsDiv NaN y = NaN"
| "jsDiv x NaN = NaN"
| "jsDiv (Fin a) y = Fin 0"
| "jsDiv x (Fin b) = (if isNegative x = (b < 0) then PosInf else NegInf)"
| "jsDiv x y = NaN"

text \<open>\<^verbatim>\<open>Math.ceil(x)\<close>\<close>

fun jsCeil :: "jsnum \<Rightarrow> jsnum" where
  "jsCeil (Fin a) = Fin (of_int \<lceil>a\<rceil>)"
| "jsCeil x = x"

text \<open>\<^verbatim>\<open>x || d\<close> on a number: NaN and 0 are falsy.\<close>

definition orDefault :: "jsnum \<Rightarrow> jsnum \<Rightarrow> jsnum" where
  "orDefault x d = (if x = NaN \<or> x = Fin 0 then d else x)"

text \<open>Numeric comparison of a stored finite number with a query bound.\<close>

fun geNum :: "rat \<Rightarrow> jsnum \<Rightarrow> bool" where
  "geNum x (Fin b) = (b \<le> x)"
| "geNum x NegInf = True"
| "geNum x _ = False"

fun leNum :: "rat \<Rightarrow> jsnum \<Rightarrow> bool" where
  "leNum x (Fin b) = (x \<le> b)"
| "leNum x PosInf = True"
| "leNum x _ = False"

subsection \<open>Reading numbers from strings\<close>

definition isWhiteSpace :: "char \<Rightarrow> bool" where
  "isWhiteSpace c = (of_char c \<in> {9, 10, 11, 12, 13, 32 :: nat})"

definition isDigit :: "char \<Rightarrow> bool" where
  "isDigit c = (48 \<le> (of_char c :: nat) \<and> (of_char c :: nat) \<le> 57)"

text \<open>The value of a digit of radix up to 16, if the character is one.\<close>

definition digitValue :: "char \<Rightarrow> nat option" where
  "digitValue c =
     (let n = (of_char c :: nat) in
      if 48 \<le> n \<and> n \<le> 57 then Some (n - 48)
      else if 97 \<le> n \<and> n \<le> 102 then Some (n - 87)
      else if 65 \<le> n \<and> n \<le> 70 then Some (n - 55)
      else None)"

definition isRadixDigit :: "nat \<Rightarrow> char \<Rightarrow> bool" where
  "isRadixDigit r c = (case digitValue c of None \<Rightarrow> False | Some d \<Rightarrow> d < r)"

definition radixValue :: "nat \<Rightarrow> string \<Rightarrow> nat" where
  "radixValue r ds = foldl (\<lambda>a c. r * a + (case digitValue c of None \<Rightarrow> 0 | Some d \<Rightarrow> d)) 0 ds"

text \<open>
  \<^verbatim>\<open>parseInt(x, 10)\<close>: leading white space is skipped, then an optional sign, then the
  longest prefix of decimal digits; no digit gives NaN, and the integer read is rounded to
  a double. \<^verbatim>\<open>undefined\<close> is first turned into the string \<^verbatim>\<open>"undefined"\<close>.
\<close>

definition parseInt :: "string option \<Rightarrow> jsnum" where
  "parseInt x =
     (let s = dropWhile isWhiteSpace (case x of None \<Rightarrow> ''undefined'' | Some str \<Rightarrow> str);
          neg = (s \<noteq> [] \<and> hd s = CHR ''-'');
          s' = (if s \<noteq> [] \<and> (hd s = CHR ''-'' \<or> hd s = CHR ''+'') then tl s else s);
          z = takeWhile isDigit s'
      in if z = [] then NaN
         else toDouble (of_int ((if neg then - 1 else 1) * int (radixValue 10 z))))"

text \<open>
  \<^verbatim>\<open>Number(s)\<close> on a string (StringToNumber): white space is trimmed on both sides, the
  empty string is 0, then either a radix-prefixed unsigned integer or an optionally signed
  decimal literal with optional fraction and exponent, or \<^verbatim>\<open>Infinity\<close>; anything
  else is NaN. The value read is rounded to a double.
\<close>

definition trim :: "string \<Rightarrow> string" where
  "trim s = rev (dropWhile isWhiteSpace (rev (dropWhile isWhiteSpace s)))"

definition allDigits :: "string \<Rightarrow> bool" where
  "allDigits s = list_all isDigit s"

text \<open>An exponent part after \<^verbatim>\<open>e\<close>: optional sign and at least one digit.\<close>

definition exponentValue :: "string \<Rightarrow> int option" where
  "exponentValue s =
     (let neg = (s \<noteq> [] \<and> hd s = CHR ''-'');
          ds = (if s \<noteq> [] \<and> (hd s = CHR ''-'' \<or> hd s = CHR ''+'') then tl s else s)
      in if ds \<noteq> [] \<and> allDigits ds
         then Some ((if neg then - 1 else 1) * int (radixValue 10 ds)) else None)"

text \<open>A mantissa: digits, optionally a dot and digits, with a digit on one side at least.\<close>

definition mantissaValue :: "string \<Rightarrow> rat option" where
  "mantissaValue s =
     (let ip = takeWhile (\<lambda>c. c \<noteq> CHR ''.'') s;
          rest = dropWhile (\<lambda>c. c \<noteq> CHR ''.'') s;
          fp = (if rest = [] then [] else tl rest)
      in if allDigits ip \<and> allDigits fp \<and> (ip \<noteq> [] \<or> fp \<noteq> [])
         then Some (of_nat (radixValue 10 ip) + of_nat (radixValue 10 fp) / 10 ^ length fp)
         else None)"

definition isExpMark :: "char \<Rightarrow> bool" where
  "isExpMark c = (c = CHR ''e'' \<or> c = CHR ''E'')"

definition unsignedDecimal :: "string \<Rightarrow> rat option" where
  "unsignedDecimal s =
     (let m = takeWhile (\<lambda>c. \<not> isExpMark c) s;
          rest = dropWhile (\<lambda>c. \<not> isExpMark c) s
      in case mantissaValue m of
           None \<Rightarrow> None
         | Some v \<Rightarrow>
             if rest = [] then Some v
             else (case exponentValue (tl rest) of
                     None \<Rightarrow> None
                   | Some e \<Rightarrow> Some (if 0 \<le> e then v * 10 ^ nat e else v / 10 ^ nat (- e))))"

definition radixLiteral :: "string \<Rightarrow> nat option" where
  "radixLiteral s =
     (case s of
        c0 # c1 # ds \<Rightarrow>
          if c0 \<noteq> CHR ''0'' \<or> ds = [] then None
          else if (c1 = CHR ''x'' \<or> c1 = CHR ''X'') \<and> list_all (isRadixDigit 16) ds
               then Some (radixValue 16 ds)
          else if (c1 = CHR ''o'' \<or> c1 = CHR ''O'') \<and> list_all (isRadixDigit 8) ds
               then Some (radixValue 8 ds)
          else if (c1 = CHR ''b'' \<or> c1 = CHR ''B'') \<and> list_all (isRadixDigit 2) ds
               then Some (radixValue 2 ds)
          else None
      | _ \<Rightarrow> None)"

definition StringToNumber :: "string \<Rightarrow> jsnum" where
  "StringToNumber str =
     (let s = trim str in
      if s = [] then Fin 0
      else case radixLiteral s of
        Some n \<Rightarrow> toDouble (of_nat n)
      | None \<Rightarrow>
         (let neg = (hd s = CHR ''-'');
              u = (if hd s = CHR ''-'' \<or> hd s = CHR ''+'' then tl s else s)
          in if u = ''Infinity'' then (if neg then NegInf else PosInf)
             else case unsignedDecimal u of
                    None \<Rightarrow> NaN
                  | Some v \<Rightarrow> toDouble (if neg then - v else v)))"

text \<open>\<^verbatim>\<open>Number(x)\<close> on a body field.\<close>

fun Number :: "jsval \<Rightarrow> jsnum" where
  "Number Undefined = NaN"
| "Number Null = Fin 0"
| "Number (Bool b) = Fin (if b then 1 else 0)"
| "Number (Num n) = n"
| "Number (Str s) = StringToNumber s"

subsection \<open>Writing numbers as strings\<close>

text \<open>The decimal digits of a natural number.\<close>

function showNat :: "nat \<Rightarrow> string" where
  "showNat n =
     (if n < 10 then [char_of (48 + n)]
      else showNat (n div 10) @ [char_of (48 + n mod 10)])"
  by pat_completeness auto
termination
  by (relation "measure id") auto

section \<open>The product collection\<close>

text \<open>
  Modelled from the spec: the schema of the \<^verbatim>\<open>Product\<close> model
  (\<^verbatim>\<open>server/models/Product.js\<close>) is not among the sources. The attributes are those of
  the spec's data model, under the names the controller and the admin client use: a
  product owns an ordered sequence of colors, each with an ordered sequence of sizes
  (a label and a stock count, a number), and an ordered sequence of reviews, each with a
  rating (a number) and a comment (a string). Identifiers are ObjectIds, taken as natural
  numbers; dates are points in time, taken as natural numbers. The collection is the list
  of its documents in natural order.
\<close>

record size_entry =
  size_s :: string
  stock :: jsnum

record color =
  name_c :: string
  hexCode :: string
  sizes :: "size_entry list"

record review =
  user :: nat
  userName :: string
  rating :: jsnum
  comment :: string
  createdAt_r :: nat

record product =
  id_p :: nat
  name :: string
  brand :: string
  category :: string
  gender :: string
  price :: rat
  description :: string
  mainImage :: string
  isActive :: bool
  isFeatured :: bool
  averageRating :: rat
  totalStock :: int
  createdAt :: nat
  colors :: "color list"
  reviews :: "review list"

text \<open>
  The \<^verbatim>\<open>$set\<close> payload of a partial update, \<^verbatim>\<open>req.body\<close>: each attribute of the
  product is supplied, with its new value, or not. The identifier cannot be set.
\<close>

record product_updates =
  u_name :: "string option"
  u_brand :: "string option"
  u_category :: "string option"
  u_gender :: "string option"
  u_price :: "rat option"
  u_description :: "string option"
  u_mainImage :: "string option"
  u_isActive :: "bool option"
  u_isFeatured :: "bool option"
  u_averageRating :: "rat option"
  u_totalStock :: "int option"
  u_createdAt :: "nat option"
  u_colors :: "color list option"
  u_reviews :: "review list option"

text \<open>
  What the data store and the runtime decide and the controller does not:
  \<^item> which documents a text search matches and how it scores them;
  \<^item> which names the store accepts as a sort key (\<open>sortable\<close>) and how it orders the
    values of a named field (\<open>fieldKey\<close>, into any linear order);
  \<^item> what the store does with a skip and a limit that are not a skip from 0 to \<open>2^53\<close> and
    a limit from 1 to \<open>2^53\<close>, a negative skip apart, which it refuses (\<open>oddWindow\<close>: it
    refuses the query, or skips some documents and returns at most some number of them);
  \<^item> the digits printed for a number that is not an integer below \<open>10^21\<close>
    (\<open>numberText\<close>);
  \<^item> the schema validators of \<^verbatim>\<open>models/Product.js\<close> that run on an update
    (\<^verbatim>\<open>runValidators: true\<close>): \<open>updateValid\<close> on the payload of a \<^verbatim>\<open>$set\<close>,
    \<open>reviewValid\<close> on the element of a \<^verbatim>\<open>$push\<close> on the reviews. They see the update
    only, not the stored document, and run before the store is asked.
\<close>

record 'k store_env =
  textMatch :: "string \<Rightarrow> product \<Rightarrow> bool"
  textScore :: "string \<Rightarrow> product \<Rightarrow> rat"
  sortable :: "string \<Rightarrow> bool"
  fieldKey :: "string \<Rightarrow> product \<Rightarrow> 'k"
  oddWindow :: "jsnum \<Rightarrow> jsnum \<Rightarrow> (nat \<times> nat option) option"
  numberText :: "rat \<Rightarrow> string"
  updateValid :: "product_updates \<Rightarrow> bool"
  reviewValid :: "review \<Rightarrow> bool"

subsection \<open>Filters\<close>

text \<open>The filter object \<^verbatim>\<open>query\<close> that \<^verbatim>\<open>getProducts\<close> builds.\<close>

record price_range =
  gte :: "jsnum option"
  lte :: "jsnum option"

record filter_doc =
  f_isActive :: "bool option"
  f_text :: "string option"
  f_brand :: "string option"
  f_category :: "string option"
  f_gender :: "string option"
  f_price :: "price_range option"
  f_isFeatured :: "bool option"

definition optHolds :: "'a option \<Rightarrow> ('a \<Rightarrow> bool) \<Rightarrow> bool" where
  "optHolds x P = (case x of None \<Rightarrow> True | Some v \<Rightarrow> P v)"

text \<open>
  Modelled from the spec: the price is a number of the schema (which is not among the
  sources), so the model casts the conditions on it to numbers before the query runs, and
  the cast refuses NaN with an error.
\<close>

definition castable :: "filter_doc \<Rightarrow> bool" where
  "castable f =
     optHolds (f_price f) (\<lambda>r. gte r \<noteq> Some NaN \<and> lte r \<noteq> Some NaN)"

definition matches :: "'k store_env \<Rightarrow> filter_doc \<Rightarrow> product \<Rightarrow> bool" where
  "matches env f p =
     (optHolds (f_isActive f) (\<lambda>b. isActive p = b) \<and>
      optHolds (f_text f) (\<lambda>s. textMatch env s p) \<and>
      optHolds (f_brand f) (\<lambda>b. brand p = b) \<and>
      optHolds (f_category f) (\<lambda>c. category p = c) \<and>
      optHolds (f_gender f) (\<lambda>g. gender p = g) \<and>
      optHolds (f_price f) (\<lambda>r. optHolds (gte r) (geNum (price p)) \<and>
                                 optHolds (lte r) (leNum (price p))) \<and>
      optHolds (f_isFeatured f) (\<lambda>b. isFeatured p = b))"

subsection \<open>Sorting\<close>

text \<open>
  A sort specification lists its keys in the order of the own properties of the JavaScript
  object: a direction (1 or -1) for a field, or the text score of the search.
\<close>

datatype sort_val = Dir int | MetaTextScore

type_synonym sort_spec = "(string \<times> sort_val) list"

text \<open>
  \<^verbatim>\<open>obj[k] = v\<close> on a plain object: an existing property keeps its place, a new one goes
  last, and the key \<^verbatim>\<open>__proto__\<close> is the accessor of the prototype, which ignores a value
  that is no object and makes no property.
\<close>

fun setProp :: "string \<Rightarrow> sort_val \<Rightarrow> sort_spec \<Rightarrow> sort_spec" where
  "setProp k v [] = (if k = ''__proto__'' then [] else [(k, v)])"
| "setProp k v ((k', v') # ps) =
     (if k = ''__proto__'' then (k', v') # ps
      else if k = k' then (k, v) # ps else (k', v') # setProp k v ps)"

text \<open>Whether \<open>p\<close> comes strictly before \<open>q\<close> on one key; text scores sort best first.\<close>

fun keyBefore ::
  "('k::linorder) store_env \<Rightarrow> string option \<Rightarrow> string \<times> sort_val \<Rightarrow> product \<Rightarrow> product \<Rightarrow> bool"
where
  "keyBefore env t (k, Dir d) p q =
     (if d < 0 then fieldKey env k q < fieldKey env k p
      else fieldKey env k p < fieldKey env k q)"
| "keyBefore env t (k, MetaTextScore) p q =
     (case t of None \<Rightarrow> False | Some s \<Rightarrow> textScore env s q < textScore env s p)"

fun docLe ::
  "('k::linorder) store_env \<Rightarrow> string option \<Rightarrow> sort_spec \<Rightarrow> product \<Rightarrow> product \<Rightarrow> bool"
where
  "docLe env t [] p q = True"
| "docLe env t (k # ks) p q =
     (keyBefore env t k p q \<or> (\<not> keyBefore env t k q p \<and> docLe env t ks p q))"

fun insertDoc :: "('a \<Rightarrow> 'a \<Rightarrow> bool) \<Rightarrow> 'a \<Rightarrow> 'a list \<Rightarrow> 'a list" where
  "insertDoc le x [] = [x]"
| "insertDoc le x (y # ys) = (if le x y then x # y # ys else y # insertDoc le x ys)"

definition sortDocs :: "('a \<Rightarrow> 'a \<Rightarrow> bool) \<Rightarrow> 'a list \<Rightarrow> 'a list" where
  "sortDocs le xs = foldr (insertDoc le) xs []"

text \<open>The store accepts a sort specification when it accepts the name of every field.\<close>

fun sortKeyOk :: "'k store_env \<Rightarrow> string \<times> sort_val \<Rightarrow> bool" where
  "sortKeyOk env (k, Dir d) = sortable env k"
| "sortKeyOk env (k, MetaTextScore) = True"

subsection \<open>Reading\<close>

text \<open>An integer of magnitude up to \<open>2^53\<close>.\<close>

definition safeInt :: "jsnum \<Rightarrow> int option" where
  "safeInt x =
     (case x of
        Fin r \<Rightarrow> if r = of_int \<lfloor>r\<rfloor> \<and> \<bar>r\<bar> \<le> 2 ^ 53 then Some \<lfloor>r\<rfloor> else None
      | _ \<Rightarrow> None)"

text \<open>
  The documents to skip and the greatest number to return, for the arguments of
  \<^verbatim>\<open>skip\<close> and \<^verbatim>\<open>limit\<close>; \<open>None\<close> when the store refuses the query.
\<close>

definition window :: "'k store_env \<Rightarrow> jsnum \<Rightarrow> jsnum \<Rightarrow> (nat \<times> nat option) option" where
  "window env skipN limitN =
     (case safeInt skipN of
        None \<Rightarrow> oddWindow env skipN limitN
      | Some s \<Rightarrow>
          if s < 0 then None
          else (case safeInt limitN of
                  None \<Rightarrow> oddWindow env skipN limitN
                | Some l \<Rightarrow>
                    if 0 < l then Some (nat s, Some (nat l))
                    else oddWindow env skipN limitN))"

text \<open>
  \<^verbatim>\<open>Product.find(query).sort(s).skip(n).limit(m)\<close>: the matching documents in sort order,
  without the first \<open>n\<close>, cut to \<open>m\<close>. The store leaves the order of documents that tie
  open; the model keeps them in their natural order.
\<close>

definition findDocs ::
  "('k::linorder) store_env \<Rightarrow> product list \<Rightarrow> filter_doc \<Rightarrow> sort_spec \<Rightarrow> jsnum \<Rightarrow> jsnum
     \<Rightarrow> string + product list"
where
  "findDocs env db f srt skipN limitN =
     (if \<not> castable f then Inl ''CastError''
      else if \<not> list_all (sortKeyOk env) srt then Inl ''bad sort key''
      else case window env skipN limitN of
             None \<Rightarrow> Inl ''bad skip or limit''
           | Some (n, m) \<Rightarrow>
               let rest = drop n (sortDocs (docLe env (f_text f) srt) (filter (matches env f) db))
               in Inr (case m of None \<Rightarrow> rest | Some k \<Rightarrow> take k rest))"

definition countDocuments :: "'k store_env \<Rightarrow> product list \<Rightarrow> filter_doc \<Rightarrow> string + nat" where
  "countDocuments env db f =
     (if \<not> castable f then Inl ''CastError'' else Inr (length (filter (matches env f) db)))"

fun findById :: "product list \<Rightarrow> nat \<Rightarrow> product option" where
  "findById [] i = None"
| "findById (p # ps) i = (if id_p p = i then Some p else findById ps i)"

section \<open>Catalog query\<close>

text \<open>The parameters of \<^verbatim>\<open>req.query\<close> that \<^verbatim>\<open>getProducts\<close> destructures.\<close>

record params =
  q_search :: "string option"
  q_brand :: "string option"
  q_category :: "string option"
  q_minPrice :: "string option"
  q_maxPrice :: "string option"
  q_gender :: "string option"
  q_sortBy :: "string option"
  q_order :: "string option"
  q_page :: "string option"
  q_limit :: "string option"
  q_featured :: "string option"

text \<open>
  A response: the HTTP status with the message and the data of the envelope. The
  \<^verbatim>\<open>success\<close> flag is the constructor; the \<^verbatim>\<open>error\<close> field of a failure, the text
  of the store's exception, is left out.
\<close>

datatype 'a response = Success nat "string option" 'a | Failure nat string

fun isSuccess :: "'a response \<Rightarrow> bool" where
  "isSuccess (Success st msg d) = True"
| "isSuccess (Failure st msg) = False"

record products_body =
  b_count :: nat
  b_total :: nat
  b_page :: jsnum
  b_pages :: jsnum
  b_data :: "product list"

definition whenGiven :: "string option \<Rightarrow> string option" where
  "whenGiven x = (if given x then x else None)"

definition buildQuery :: "params \<Rightarrow> filter_doc" where
  "buildQuery rq =
     \<lparr> f_isActive = Some True,
       f_text = whenGiven (q_search rq),
       f_brand = whenGiven (q_brand rq),
       f_category = whenGiven (q_category rq),
       f_gender = whenGiven (q_gender rq),
       f_price =
         (if given (q_minPrice rq) \<or> given (q_maxPrice rq)
          then Some \<lparr> gte = map_option StringToNumber (whenGiven (q_minPrice rq)),
                      lte = map_option StringToNumber (whenGiven (q_maxPrice rq)) \<rparr>
          else None),
       f_isFeatured = (if q_featured rq = Some ''true'' then Some True else None) \<rparr>"

definition buildSort :: "params \<Rightarrow> sort_spec" where
  "buildSort rq =
     (case whenGiven (q_sortBy rq) of
        Some sortBy \<Rightarrow>
          (let sortOrder = (if q_order rq = Some ''desc'' then - 1 else 1);
               sortOptions = setProp sortBy (Dir sortOrder) []
           in if given (q_search rq) then setProp ''score'' MetaTextScore sortOptions
              else sortOptions)
      | None \<Rightarrow> [(''createdAt'', Dir (- 1))])"

definition pageNum :: "params \<Rightarrow> jsnum" where
  "pageNum rq = orDefault (parseInt (q_page rq)) (Fin 1)"

definition limitNum :: "params \<Rightarrow> jsnum" where
  "limitNum rq = orDefault (parseInt (q_limit rq)) (Fin 12)"

definition skipNum :: "params \<Rightarrow> jsnum" where
  "skipNum rq = jsMul (jsSub (pageNum rq) (Fin 1)) (limitNum rq)"

definition getProducts ::
  "('k::linorder) store_env \<Rightarrow> product list \<Rightarrow> params \<Rightarrow> products_body response"
where
  "getProducts env db rq =
     (let query = buildQuery rq; sortOptions = buildSort rq in
      case findDocs env db query sortOptions (skipNum rq) (limitNum rq) of
        Inl e \<Rightarrow> Failure 500 ''Error fetching products''
      | Inr products \<Rightarrow>
          (case countDocuments env db query of
             Inl e \<Rightarrow> Failure 500 ''Error fetching products''
           | Inr totalN \<Rightarrow>
               Success 200 None
                 \<lparr> b_count = length products,
                   b_total = totalN,
                   b_page = pageNum rq,
                   b_pages = jsCeil (jsDiv (toDouble (of_nat totalN)) (limitNum rq)),
                   b_data = products \<rparr>))"

section \<open>Mutations\<close>

text \<open>
  The identifier of a request is a string of the path; \<open>None\<close> stands for one that is no
  ObjectId, on which every lookup of the store throws a cast error.

  \<^verbatim>\<open>Product.findByIdAndUpdate(id, update, {new: true})\<close>: the update is applied to the
  document with that identifier, and the updated document is returned; without such a
  document nothing changes and the result is \<^verbatim>\<open>null\<close>.
\<close>

fun findByIdAndUpdate ::
  "product list \<Rightarrow> nat \<Rightarrow> (product \<Rightarrow> product) \<Rightarrow> product option \<times> product list"
where
  "findByIdAndUpdate [] i g = (None, [])"
| "findByIdAndUpdate (p # ps) i g =
     (if id_p p = i then (Some (g p), g p # ps)
      else (fst (findByIdAndUpdate ps i g), p # snd (findByIdAndUpdate ps i g)))"

subsection \<open>Partial update\<close>

definition orElse :: "'a option \<Rightarrow> 'a \<Rightarrow> 'a" where
  "orElse x d = (case x of None \<Rightarrow> d | Some v \<Rightarrow> v)"

text \<open>\<^verbatim>\<open>{ $set: updates }\<close>: every supplied attribute is overwritten.\<close>

definition applySet :: "product_updates \<Rightarrow> product \<Rightarrow> product" where
  "applySet u p =
     p\<lparr> name := orElse (u_name u) (name p),
        brand := orElse (u_brand u) (brand p),
        category := orElse (u_category u) (category p),
        gender := orElse (u_gender u) (gender p),
        price := orElse (u_price u) (price p),
        description := orElse (u_description u) (description p),
        mainImage := orElse (u_mainImage u) (mainImage p),
        isActive := orElse (u_isActive u) (isActive p),
        isFeatured := orElse (u_isFeatured u) (isFeatured p),
        averageRating := orElse (u_averageRating u) (averageRating p),
        totalStock := orElse (u_totalStock u) (totalStock p),
        createdAt := orElse (u_createdAt u) (createdAt p),
        colors := orElse (u_colors u) (colors p),
        reviews := orElse (u_reviews u) (reviews p) \<rparr>"

text \<open>
  The cast of the identifier and the validators of the payload run before the store is
  asked, and either failure is an exception of \<^verbatim>\<open>findByIdAndUpdate\<close>, answered 400.
\<close>

definition updateProduct ::
  "'k store_env \<Rightarrow> product list \<Rightarrow> nat option \<Rightarrow> product_updates
     \<Rightarrow> product response \<times> product list"
where
  "updateProduct env db reqId updates =
     (case reqId of
        None \<Rightarrow> (Failure 400 ''Error updating product'', db)
      | Some i \<Rightarrow>
          if \<not> updateValid env updates
          then (Failure 400 ''Error updating product'', db)
          else case findByIdAndUpdate db i (applySet updates) of
                 (None, db') \<Rightarrow> (Failure 404 ''Product not found'', db')
               | (Some product, db') \<Rightarrow>
                   (Success 200 (Some ''Product updated successfully'') product, db'))"

subsection \<open>Stock adjustment\<close>

text \<open>\<^verbatim>\<open>xs.findIndex(P)\<close>, with \<open>None\<close> for -1.\<close>

fun findIndex :: "('a \<Rightarrow> bool) \<Rightarrow> 'a list \<Rightarrow> nat option" where
  "findIndex P [] = None"
| "findIndex P (x # xs) = (if P x then Some 0 else map_option Suc (findIndex P xs))"

text \<open>Updating the element at an index that the handler has found in the list.\<close>

fun mapAt :: "nat \<Rightarrow> ('a \<Rightarrow> 'a) \<Rightarrow> 'a list \<Rightarrow> 'a list" where
  "mapAt n g [] = []"
| "mapAt 0 g (x # xs) = g x # xs"
| "mapAt (Suc n) g (x # xs) = x # mapAt n g xs"

text \<open>
  \<^verbatim>\<open>{ $inc: { "colors.i.sizes.j.stock": quantity } }\<close>: the store adds the quantity to the
  current stock, as numbers, so that the sum is rounded as every sum of two doubles is.
\<close>

definition incStock :: "nat \<Rightarrow> nat \<Rightarrow> jsnum \<Rightarrow> product \<Rightarrow> product" where
  "incStock i j quantity p =
     p\<lparr> colors :=
          mapAt i (\<lambda>c. c\<lparr> sizes := mapAt j (\<lambda>s. s\<lparr> stock := jsAdd (stock s) quantity \<rparr>) (sizes c) \<rparr>)
            (colors p) \<rparr>"

text \<open>
  The body of a stock adjustment; the quantity is a number.

  Modelled from the spec: the stock count is a number of the schema (which is not among
  the sources), so the update casts the quantity to a number first, and the cast refuses
  NaN with an error.
\<close>

record stock_body =
  colorName :: string
  size_b :: string
  quantity :: jsnum

text \<open>
  The steps of \<^verbatim>\<open>updateStock\<close> between its two awaits: the lookup with the search for
  the color and the size, and the update, whose cast refuses a quantity that is NaN.
\<close>

datatype stock_task =
  StockStart "nat option" stock_body
| StockFound nat nat nat jsnum
| StockDone "product option response"

fun stockStep :: "product list \<Rightarrow> stock_task \<Rightarrow> stock_task \<times> product list" where
  "stockStep db (StockStart None body) = (StockDone (Failure 400 ''Error updating stock''), db)"
| "stockStep db (StockStart (Some i) body) =
     (case findById db i of
        None \<Rightarrow> (StockDone (Failure 404 ''Product not found''), db)
      | Some product \<Rightarrow>
          (case findIndex (\<lambda>c. name_c c = colorName body) (colors product) of
             None \<Rightarrow> (StockDone (Failure 404 ''Color not found''), db)
           | Some colorIndex \<Rightarrow>
               (case findIndex (\<lambda>s. size_s s = size_b body)
                       (sizes (colors product ! colorIndex)) of
                  None \<Rightarrow> (StockDone (Failure 404 ''Size not found''), db)
                | Some sizeIndex \<Rightarrow>
                    (StockFound i colorIndex sizeIndex (quantity body), db))))"
| "stockStep db (StockFound i colorIndex sizeIndex q) =
     (if q = NaN then (StockDone (Failure 400 ''Error updating stock''), db)
      else case findByIdAndUpdate db i (incStock colorIndex sizeIndex q) of
             (updatedProduct, db') \<Rightarrow>
               (StockDone (Success 200 (Some ''Stock updated successfully'') updatedProduct),
                db'))"
| "stockStep db (StockDone r) = (StockDone r, db)"

definition updateStock ::
  "product list \<Rightarrow> nat option \<Rightarrow> stock_body \<Rightarrow> product option response \<times> product list"
where
  "updateStock db reqId body =
     (case reqId of
        None \<Rightarrow> (Failure 400 ''Error updating stock'', db)
      | Some i \<Rightarrow>
     (case findById db i of
        None \<Rightarrow> (Failure 404 ''Product not found'', db)
      | Some product \<Rightarrow>
          (case findIndex (\<lambda>c. name_c c = colorName body) (colors product) of
             None \<Rightarrow> (Failure 404 ''Color not found'', db)
           | Some colorIndex \<Rightarrow>
               (case findIndex (\<lambda>s. size_s s = size_b body)
                       (sizes (colors product ! colorIndex)) of
                  None \<Rightarrow> (Failure 404 ''Size not found'', db)
                | Some sizeIndex \<Rightarrow>
                    if quantity body = NaN then (Failure 400 ''Error updating stock'', db)
                    else
                    (case findByIdAndUpdate db i
                            (incStock colorIndex sizeIndex (quantity body)) of
                       (updatedProduct, db') \<Rightarrow>
                         (Success 200 (Some ''Stock updated successfully'') updatedProduct,
                          db'))))))"

text \<open>The store calls that a task has ahead of it, at most, and a task run alone to its end.\<close>

fun stockAwaits :: "stock_task \<Rightarrow> nat" where
  "stockAwaits (StockStart i body) = 2"
| "stockAwaits (StockFound i colorIndex sizeIndex q) = 1"
| "stockAwaits (StockDone r) = 0"

definition stockRun :: "product list \<Rightarrow> stock_task \<Rightarrow> stock_task \<times> product list" where
  "stockRun db t = (case stockStep db t of (t', db') \<Rightarrow> stockStep db' t')"

subsection \<open>Review append\<close>

text \<open>The authenticated user of the request, and the body of a review submission.\<close>

record auth_user =
  uid :: nat
  uname :: string

record review_body =
  rating_b :: jsval
  comment_b :: jsval

text \<open>The element that the handler pushes, as it builds it.\<close>

record review_draft =
  d_user :: nat
  d_userName :: string
  d_rating :: jsnum
  d_comment :: jsval
  d_createdAt :: nat

text \<open>
  The text of a number: the decimal digits of an integer below \<open>10^21\<close> in magnitude,
  \<open>numberText\<close> for the other finite numbers.
\<close>

definition numberString :: "'k store_env \<Rightarrow> jsnum \<Rightarrow> string" where
  "numberString env x =
     (case x of
        NaN \<Rightarrow> ''NaN''
      | PosInf \<Rightarrow> ''Infinity''
      | NegInf \<Rightarrow> ''-Infinity''
      | Fin r \<Rightarrow>
          if r = of_int \<lfloor>r\<rfloor> \<and> \<bar>r\<bar> < 10 ^ 21
          then (if r < 0 then CHR ''-'' # showNat (nat (- \<lfloor>r\<rfloor>)) else showNat (nat \<lfloor>r\<rfloor>))
          else numberText env r)"

text \<open>
  Modelled from the spec: the rating is a number and the comment a string of the schema
  (which is not among the sources), so the pushed element is cast first: the cast of the
  rating refuses NaN, and the cast of the comment keeps a string and takes the text of a
  number or a boolean. A value that is missing is no string.
\<close>

definition castString :: "'k store_env \<Rightarrow> jsval \<Rightarrow> string option" where
  "castString env v =
     (case v of
        Str s \<Rightarrow> Some s
      | Num n \<Rightarrow> Some (numberString env n)
      | Bool b \<Rightarrow> Some (if b then ''true'' else ''false'')
      | _ \<Rightarrow> None)"

definition castReview :: "'k store_env \<Rightarrow> review_draft \<Rightarrow> review option" where
  "castReview env d =
     (if d_rating d = NaN then None
      else case castString env (d_comment d) of
             None \<Rightarrow> None
           | Some text \<Rightarrow>
               Some \<lparr> user = d_user d, userName = d_userName d, rating = d_rating d,
                      comment = text, createdAt_r = d_createdAt d \<rparr>)"

text \<open>The review that a push of the draft appends, if the cast and the validators pass.\<close>

definition checkedReview :: "'k store_env \<Rightarrow> review_draft \<Rightarrow> review option" where
  "checkedReview env d =
     (case castReview env d of
        None \<Rightarrow> None
      | Some r \<Rightarrow> if reviewValid env r then Some r else None)"

text \<open>
  \<^verbatim>\<open>findByIdAndUpdate(productId, { $push: { reviews: draft } }, { runValidators: true })\<close>:
  a failure of the cast or of the validators is an exception, before the store is asked.
\<close>

definition pushReview ::
  "'k store_env \<Rightarrow> product list \<Rightarrow> nat \<Rightarrow> review_draft
     \<Rightarrow> string + product option \<times> product list"
where
  "pushReview env db i d =
     (case checkedReview env d of
        None \<Rightarrow> Inl ''the cast or a validator failed''
      | Some r \<Rightarrow> Inr (findByIdAndUpdate db i (\<lambda>p. p\<lparr> reviews := reviews p @ [r] \<rparr>)))"

text \<open>The element of the push for a user, a time and a body.\<close>

definition reviewDraft :: "auth_user \<Rightarrow> nat \<Rightarrow> review_body \<Rightarrow> review_draft" where
  "reviewDraft usr now body =
     \<lparr> d_user = uid usr, d_userName = uname usr, d_rating = Number (rating_b body),
       d_comment = comment_b body, d_createdAt = now \<rparr>"

text \<open>
  The steps of \<^verbatim>\<open>addReview\<close> between its two awaits: the guard and the lookup, with the
  search for a review of the user in the product that was read, and the push. \<open>now\<close> is
  the server's clock at \<^verbatim>\<open>new Date()\<close>.
\<close>

datatype review_task =
  ReviewStart "nat option" auth_user nat review_body
| ReviewChecked nat review_draft
| ReviewDone "product option response"

fun reviewStep ::
  "'k store_env \<Rightarrow> product list \<Rightarrow> review_task \<Rightarrow> review_task \<times> product list"
where
  "reviewStep env db (ReviewStart reqId usr now body) =
     (if \<not> truthy (rating_b body) \<or> \<not> truthy (comment_b body)
      then (ReviewDone (Failure 400 ''Please provide rating and comment''), db)
      else case reqId of
        None \<Rightarrow> (ReviewDone (Failure 400 ''Error adding review''), db)
      | Some productId \<Rightarrow>
          (case findById db productId of
             None \<Rightarrow> (ReviewDone (Failure 404 ''Product not found''), db)
           | Some product \<Rightarrow>
               (case List.find (\<lambda>r. user r = uid usr) (reviews product) of
                  Some existingReview \<Rightarrow>
                    (ReviewDone (Failure 400 ''You have already reviewed this product''), db)
                | None \<Rightarrow>
                    (ReviewChecked productId (reviewDraft usr now body), db))))"
| "reviewStep env db (ReviewChecked productId d) =
     (case pushReview env db productId d of
        Inl e \<Rightarrow> (ReviewDone (Failure 400 ''Error adding review''), db)
      | Inr (updatedProduct, db') \<Rightarrow>
          (ReviewDone (Success 201 (Some ''Review added successfully'') updatedProduct), db'))"
| "reviewStep env db (ReviewDone r) = (ReviewDone r, db)"

definition addReview ::
  "'k store_env \<Rightarrow> product list \<Rightarrow> nat \<Rightarrow> auth_user \<Rightarrow> nat option \<Rightarrow> review_body
     \<Rightarrow> product option response \<times> product list"
where
  "addReview env db now usr reqId body =
     (if \<not> truthy (rating_b body) \<or> \<not> truthy (comment_b body)
      then (Failure 400 ''Please provide rating and comment'', db)
      else case reqId of
        None \<Rightarrow> (Failure 400 ''Error adding review'', db)
      | Some productId \<Rightarrow>
      (case findById db productId of
        None \<Rightarrow> (Failure 404 ''Product not found'', db)
      | Some product \<Rightarrow>
          (case List.find (\<lambda>r. user r = uid usr) (reviews product) of
             Some existingReview \<Rightarrow>
               (Failure 400 ''You have already reviewed this product'', db)
           | None \<Rightarrow>
               (case pushReview env db productId (reviewDraft usr now body) of
                  Inl e \<Rightarrow> (Failure 400 ''Error adding review'', db)
                | Inr (updatedProduct, db') \<Rightarrow>
                    (Success 201 (Some ''Review added successfully'') updatedProduct, db')))))"

fun reviewAwaits :: "review_task \<Rightarrow> nat" where
  "reviewAwaits (ReviewStart reqId usr now body) = 2"
| "reviewAwaits (ReviewChecked productId d) = 1"
| "reviewAwaits (ReviewDone r) = 0"

text \<open>Whether a task has been answered, and with a success.\<close>

fun reviewAdded :: "review_task \<Rightarrow> bool" where
  "reviewAdded (ReviewStart reqId usr now body) = False"
| "reviewAdded (ReviewChecked productId d) = False"
| "reviewAdded (ReviewDone r) = isSuccess r"

section \<open>Concurrent requests\<close>

text \<open>
  A handler runs without interruption from one await to the next, and each await is one
  call of the store, which the store runs on its own. Two requests in flight are therefore
  two tasks whose steps interleave: a schedule says, step by step, which of the two moves
  (\<open>True\<close> for the first). A task that is done stays as it is.
\<close>

fun interleave ::
  "('s \<Rightarrow> 't \<Rightarrow> 't \<times> 's) \<Rightarrow> bool list \<Rightarrow> 't \<times> 't \<times> 's \<Rightarrow> 't \<times> 't \<times> 's"
where
  "interleave step [] c = c"
| "interleave step (True # sched) (a, b, s) =
     interleave step sched (fst (step s a), b, snd (step s a))"
| "interleave step (False # sched) (a, b, s) =
     interleave step sched (a, fst (step s b), snd (step s b))"

section \<open>A small catalog\<close>

text \<open>
  One store and a few requests on which the handlers are run below: a listed running shoe
  with Red stock in sizes 8 and 9 and one review, and a product that is not active.
\<close>

definition exShoe :: product where
  "exShoe =
     \<lparr> id_p = 1, name = ''Pegasus'', brand = ''Nike'', category = ''Running'',
       gender = ''Unisex'', price = 80, description = ''Road shoe'', mainImage = ''p.png'',
       isActive = True, isFeatured = False, averageRating = 5, totalStock = 14,
       createdAt = 10,
       colors = [\<lparr> name_c = ''Red'', hexCode = ''#ff0000'',
                   sizes = [\<lparr> size_s = ''8'', stock = Fin 4 \<rparr>,
                            \<lparr> size_s = ''9'', stock = Fin 10 \<rparr>] \<rparr>],
       reviews = [\<lparr> user = 7, userName = ''ann'', rating = Fin 5, comment = ''good'',
                    createdAt_r = 11 \<rparr>] \<rparr>"

definition exHidden :: product where
  "exHidden =
     \<lparr> id_p = 2, name = ''Retired'', brand = ''Nike'', category = ''Running'',
       gender = ''Unisex'', price = 60, description = ''Old model'', mainImage = ''r.png'',
       isActive = False, isFeatured = False, averageRating = 0, totalStock = 0,
       createdAt = 5, colors = [], reviews = [] \<rparr>"

definition exDb :: "product list" where
  "exDb = [exShoe, exHidden]"

text \<open>
  Two more listed products of the same name, newer and dearer, one rated lower than the
  other, and the collections that hold them.
\<close>

definition exTrail :: product where
  "exTrail =
     \<lparr> id_p = 3, name = ''Pegasus'', brand = ''Nike'', category = ''Trail'',
       gender = ''Unisex'', price = 120, description = ''Trail shoe'', mainImage = ''t.png'',
       isActive = True, isFeatured = True, averageRating = 4, totalStock = 3,
       createdAt = 20, colors = [], reviews = [] \<rparr>"

definition exRacer :: product where
  "exRacer =
     \<lparr> id_p = 4, name = ''Pegasus'', brand = ''Nike'', category = ''Racing'',
       gender = ''Unisex'', price = 120, description = ''Race shoe'', mainImage = ''c.png'',
       isActive = True, isFeatured = False, averageRating = 5, totalStock = 2,
       createdAt = 30, colors = [], reviews = [] \<rparr>"


definition exShelf :: "product list" where
  "exShelf = [exShoe, exHidden, exTrail, exRacer]"

text \<open>
  A store whose text search matches on the product name and scores by the average rating,
  that accepts every sort key not starting with a dollar sign and orders every field but
  the price and the creation date as equal, that returns up to \<open>n\<close> documents for a limit
  of \<open>-n\<close> and refuses every other odd skip or limit, and whose validators ask for a
  price of 0 or more, a rating from 1 to 5 and a comment that is not empty.
\<close>

definition exEnv :: "rat store_env" where
  "exEnv =
     \<lparr> textMatch = (\<lambda>s p. s = name p),
       textScore = (\<lambda>s p. averageRating p),
       sortable = (\<lambda>k. k \<noteq> [] \<and> hd k \<noteq> CHR ''$''),
       fieldKey = (\<lambda>k p. if k = ''price'' then price p
                           else if k = ''createdAt'' then of_nat (createdAt p) else 0),
       oddWindow = (\<lambda>s l. case (safeInt s, safeInt l) of
                              (Some a, Some b) \<Rightarrow>
                                if 0 \<le> a \<and> b < 0 then Some (nat a, Some (nat (- b))) else None
                            | _ \<Rightarrow> None),
       numberText = (\<lambda>r. showNat (nat \<lfloor>\<bar>r\<bar>\<rfloor>)),
       updateValid = (\<lambda>u. case u_price u of None \<Rightarrow> True | Some v \<Rightarrow> 0 \<le> v),
       reviewValid = (\<lambda>r. (case rating r of Fin x \<Rightarrow> 1 \<le> x \<and> x \<le> 5 | _ \<Rightarrow> False)
                            \<and> comment r \<noteq> []) \<rparr>"

definition noParams :: params where
  "noParams =
     \<lparr> q_search = None, q_brand = None, q_category = None, q_minPrice = None,
       q_maxPrice = None, q_gender = None, q_sortBy = None, q_order = None,
       q_page = None, q_limit = None, q_featured = None \<rparr>"

definition noUpdates :: product_updates where
  "noUpdates =
     \<lparr> u_name = None, u_brand = None, u_category = None, u_gender = None, u_price = None,
       u_description = None, u_mainImage = None, u_isActive = None, u_isFeatured = None,
       u_averageRating = None, u_totalStock = None, u_createdAt = None, u_colors = None,
       u_reviews = None \<rparr>"

section \<open>Properties of doubles\<close>

lemma floorLog2_bounds:
  assumes "0 < x"
  shows "power_int 2 (floorLog2 x) \<le> x" and "x < power_int 2 (floorLog2 x + 1)"
proof -
  obtain p q where pq: "quotient_of x = (p, q)" by (cases "quotient_of x")
  then have q: "0 < q" and x: "x = of_int p / of_int q"
    by (auto dest: quotient_of_denom_pos quotient_of_div)
  with assms have p: "0 < p"
    by (simp add: zero_less_divide_iff)
  define bp bq where "bp = bitlen p" and "bq = bitlen q"
  have bp: "2 ^ nat (bp - 1) \<le> p" "p < 2 ^ nat bp" and bq: "2 ^ nat (bq - 1) \<le> q" "q < 2 ^ nat bq"
    using bitlen_bounds [OF p] bitlen_bounds [OF q] by (simp_all add: bp_def bq_def)
  have pos: "1 \<le> bp" "1 \<le> bq"
    using p q by (simp_all add: bp_def bq_def bitlen_alt_def)
  have rp: "power_int 2 (bp - 1) \<le> (of_int p :: rat)" "(of_int p :: rat) < power_int 2 bp"
    and rq: "power_int 2 (bq - 1) \<le> (of_int q :: rat)" "(of_int q :: rat) < power_int 2 bq"
  proof -
    have "(of_int (2 ^ nat (bp - 1)) :: rat) \<le> of_int p" using bp(1) by (simp only: of_int_le_iff)
    then show "power_int 2 (bp - 1) \<le> (of_int p :: rat)" using pos by (simp add: power_int_def)
    have "(of_int p :: rat) < of_int (2 ^ nat bp)" using bp(2) by (simp only: of_int_less_iff)
    then show "(of_int p :: rat) < power_int 2 bp" using pos by (simp add: power_int_def)
    have "(of_int (2 ^ nat (bq - 1)) :: rat) \<le> of_int q" using bq(1) by (simp only: of_int_le_iff)
    then show "power_int 2 (bq - 1) \<le> (of_int q :: rat)" using pos by (simp add: power_int_def)
    have "(of_int q :: rat) < of_int (2 ^ nat bq)" using bq(2) by (simp only: of_int_less_iff)
    then show "(of_int q :: rat) < power_int 2 bq" using pos by (simp add: power_int_def)
  qed
  have qpos: "0 < (of_int q :: rat)" using q by simp
  have upper: "x < power_int 2 (bp - bq + 1)"
  proof -
    have "x < power_int 2 bp / of_int q"
      unfolding x using rp(2) qpos by (simp add: divide_strict_right_mono)
    also have "\<dots> \<le> power_int 2 bp / power_int 2 (bq - 1)"
    proof (rule divide_left_mono [OF rq(1)])
      show "0 \<le> (power_int 2 bp :: rat)" by simp
      show "0 < (of_int q :: rat) * power_int 2 (bq - 1)" using qpos by (intro mult_pos_pos) simp_all
    qed
    also have "\<dots> = power_int 2 (bp - bq + 1)"
      by (simp add: power_int_diff [symmetric] algebra_simps)
    finally show ?thesis .
  qed
  have lower: "power_int 2 (bp - bq - 1) \<le> x"
  proof -
    have "power_int 2 (bp - bq - 1) = power_int 2 (bp - 1) / (power_int 2 bq :: rat)"
      by (simp add: power_int_diff [symmetric] algebra_simps)
    also have "\<dots> \<le> of_int p / power_int 2 bq"
      using rp(1) by (simp add: divide_right_mono)
    also have "\<dots> \<le> of_int p / of_int q"
    proof (rule divide_left_mono)
      show "(of_int q :: rat) \<le> power_int 2 bq" using rq(2) by simp
      show "0 \<le> (of_int p :: rat)" using p by simp
      show "0 < (power_int 2 bq :: rat) * of_int q" using qpos by (intro mult_pos_pos) simp_all
    qed
    finally show ?thesis by (simp add: x)
  qed
  have fl: "floorLog2 x = (if power_int 2 (bp - bq) \<le> x then bp - bq else bp - bq - 1)"
    by (simp add: floorLog2_def pq bp_def bq_def Let_def)
  show "power_int 2 (floorLog2 x) \<le> x"
    using lower by (simp add: fl)
  show "x < power_int 2 (floorLog2 x + 1)"
    using upper by (auto simp: fl not_le)
qed


lemma pow2_less_imp: "power_int (2::rat) m < power_int 2 n \<Longrightarrow> m < n"
  using power_int_increasing [of n m "2::rat"] by (cases "m < n") simp_all

lemma pow2_le_imp: "power_int (2::rat) m \<le> power_int 2 n \<Longrightarrow> m \<le> n"
  using power_int_strict_increasing [of n m "2::rat"] by (cases "m \<le> n") simp_all

lemma floorLog2_eq:
  assumes "power_int 2 k \<le> x" and "x < power_int 2 (k + 1)"
  shows "floorLog2 x = k"
proof -
  have x: "0 < x"
    using assms(1) by (rule less_le_trans [rotated]) simp
  note b = floorLog2_bounds [OF x]
  have "power_int (2::rat) k < power_int 2 (floorLog2 x + 1)"
    using assms(1) b(2) by (rule le_less_trans)
  then have "k < floorLog2 x + 1"
    by (rule pow2_less_imp)
  moreover have "power_int (2::rat) (floorLog2 x) < power_int 2 (k + 1)"
    using b(1) assms(2) by (rule le_less_trans)
  then have "floorLog2 x < k + 1"
    by (rule pow2_less_imp)
  ultimately show ?thesis by simp
qed

lemma roundHalfEven_of_int: "roundHalfEven (of_int z) = z"
  by (simp add: roundHalfEven_def)


text \<open>Away from overflow and from the subnormal range, rounding moves a positive number
  by at most half a unit in the last place.\<close>

lemma toDouble_normal:
  assumes x: "0 < x" and k: "floorLog2 x = k" "- 1022 \<le> k" "k \<le> 1022"
  shows "toDouble x = Fin (of_int (roundHalfEven (x / power_int 2 (k - 52))) * power_int 2 (k - 52))"
proof -
  have "max (k - 52) (- 1074) = k - 52"
    using k by simp
  with x k show ?thesis
    by (simp add: toDouble_def Let_def)
qed


lemma floorLog2_range:
  assumes "power_int 2 a \<le> x" and "x \<le> power_int 2 b"
  shows "a \<le> floorLog2 x" and "floorLog2 x \<le> b"
proof -
  have x: "0 < x"
    using assms(1) by (rule less_le_trans [rotated]) simp
  note bd = floorLog2_bounds [OF x]
  have "power_int (2::rat) a < power_int 2 (floorLog2 x + 1)"
    using assms(1) bd(2) by (rule le_less_trans)
  then have "a < floorLog2 x + 1"
    by (rule pow2_less_imp)
  then show "a \<le> floorLog2 x" by simp
  have "power_int (2::rat) (floorLog2 x) \<le> power_int 2 b"
    using bd(1) assms(2) by (rule order_trans)
  then show "floorLog2 x \<le> b"
    by (rule pow2_le_imp)
qed

text \<open>Integers of magnitude up to \<open>2^53\<close> are doubles.\<close>

lemma toDouble_nat_exact:
  assumes n: "0 < n" "n \<le> 2 ^ 53"
  shows "toDouble (of_int n) = Fin (of_int n)"
proof -
  let ?x = "of_int n :: rat"
  define k where "k = floorLog2 ?x"
  have x: "0 < ?x" using n by simp
  have "power_int 2 0 \<le> ?x" using n by simp
  moreover have "?x \<le> power_int 2 53"
  proof -
    have "?x \<le> of_int (2 ^ 53)" using n(2) by (simp only: of_int_le_iff)
    then show ?thesis by simp
  qed
  ultimately have k: "0 \<le> k" "k \<le> 53"
    unfolding k_def by (rule floorLog2_range)+
  have kk: "floorLog2 ?x = k" by (simp add: k_def)
  show ?thesis
  proof (cases "k \<le> 52")
    case True
    have "?x / power_int 2 (k - 52) = ?x * 2 ^ nat (52 - k)"
      using True by (simp add: power_int_def field_simps)
    also have "\<dots> = of_int (n * 2 ^ nat (52 - k))" by simp
    finally have "roundHalfEven (?x / power_int 2 (k - 52)) = n * 2 ^ nat (52 - k)"
      by (simp only: roundHalfEven_of_int)
    moreover have "(of_int (n * 2 ^ nat (52 - k)) :: rat) * power_int 2 (k - 52) = ?x"
      using True by (simp add: power_int_def field_simps)
    ultimately show ?thesis
      using toDouble_normal [OF x kk] k by simp
  next
    case False
    with k have k53: "k = 53" by simp
    have "power_int 2 53 \<le> ?x"
      using floorLog2_bounds(1) [OF x] by (simp add: kk k53)
    then have "(of_int (2 ^ 53) :: rat) \<le> of_int n" by simp
    then have "2 ^ 53 \<le> n" by (simp only: of_int_le_iff)
    with n have n53: "n = 2 ^ 53" by simp
    have "roundHalfEven (?x / power_int 2 (k - 52)) = 2 ^ 52"
      using roundHalfEven_of_int [of "2 ^ 52"] by (simp add: k53 n53)
    then show ?thesis
      using toDouble_normal [OF x kk] by (simp add: k53 n53)
  qed
qed

lemma toDouble_neg: "toDouble (- x) = (case toDouble x of Fin v \<Rightarrow> Fin (- v) | PosInf \<Rightarrow> NegInf
    | NegInf \<Rightarrow> PosInf | NaN \<Rightarrow> NaN)"
  by (cases "x = 0"; cases "0 < x") (auto simp: toDouble_def Let_def)

lemma toDouble_int_exact:
  assumes "\<bar>n\<bar> \<le> 2 ^ 53"
  shows "toDouble (of_int n) = Fin (of_int n)"
proof -
  consider "n = 0" | "0 < n" | "n < 0" by linarith
  then show ?thesis
  proof cases
    case 1
    then show ?thesis by (simp add: toDouble_def)
  next
    case 2
    with assms show ?thesis by (simp add: toDouble_nat_exact)
  next
    case 3
    with assms have "toDouble (of_int (- n)) = Fin (of_int (- n))"
      by (intro toDouble_nat_exact) simp_all
    then show ?thesis
      using toDouble_neg [of "of_int (- n)"] by simp
  qed
qed


lemma jsAdd_int_exact:
  "\<bar>a + b\<bar> \<le> 2 ^ 53 \<Longrightarrow> jsAdd (Fin (of_int a)) (Fin (of_int b)) = Fin (of_int (a + b))"
  using toDouble_int_exact [of "a + b"] by simp




section \<open>Properties of the store operations\<close>

lemma set_insertDoc: "set (insertDoc le x xs) = insert x (set xs)"
  by (induction xs) auto

lemma set_sortDocs: "set (sortDocs le xs) = set xs"
  by (induction xs) (simp_all add: sortDocs_def set_insertDoc)



lemma findDocs_Inr:
  assumes "findDocs env db f srt skipN limitN = Inr ps"
  shows "\<exists>n m. window env skipN limitN = Some (n, m)
           \<and> ps = (case m of
                     None \<Rightarrow> drop n (sortDocs (docLe env (f_text f) srt) (filter (matches env f) db))
                   | Some k \<Rightarrow>
                       take k (drop n (sortDocs (docLe env (f_text f) srt)
                                          (filter (matches env f) db))))"
proof (cases "window env skipN limitN")
  case None
  with assms show ?thesis
    by (simp add: findDocs_def split: if_splits)
next
  case (Some w)
  obtain n m where w: "w = (n, m)" by (cases w)
  from assms Some w show ?thesis
    by (intro exI [of _ n] exI [of _ m]) (simp add: findDocs_def Let_def split: if_splits)
qed

lemma findDocs_subset:
  assumes "findDocs env db f srt skipN limitN = Inr ps"
  shows "set ps \<subseteq> {p \<in> set db. matches env f p}"
proof -
  let ?ms = "sortDocs (docLe env (f_text f) srt) (filter (matches env f) db)"
  from findDocs_Inr [OF assms] obtain n m where
    "ps = (case m of None \<Rightarrow> drop n ?ms | Some k \<Rightarrow> take k (drop n ?ms))"
    by blast
  then have "set ps \<subseteq> set ?ms"
    by (auto split: option.splits dest: in_set_takeD in_set_dropD)
  then show ?thesis by (simp add: set_sortDocs subset_iff)
qed

lemma matches_buildQuery_active: "matches env (buildQuery rq) p \<Longrightarrow> isActive p"
  by (simp add: matches_def buildQuery_def optHolds_def)

lemma findById_Some_id: "findById db i = Some p \<Longrightarrow> id_p p = i"
  by (induction db) (auto split: if_splits)

lemma findByIdAndUpdate_missing: "findById db i = None \<Longrightarrow> findByIdAndUpdate db i g = (None, db)"
  by (induction db) (auto split: if_splits)

lemma findByIdAndUpdate_found:
  "findById db i = Some p \<Longrightarrow> fst (findByIdAndUpdate db i g) = Some (g p)"
  by (induction db) (auto split: if_splits)

lemma findByIdAndUpdate_lookup:
  assumes "findById db i = Some p" and "id_p (g p) = i"
  shows "findById (snd (findByIdAndUpdate db i g)) j = (if j = i then Some (g p) else findById db j)"
  using assms by (induction db) (auto split: if_splits)

lemma findByIdAndUpdate_cong:
  "findById db i = Some p \<Longrightarrow> g p = h p \<Longrightarrow> findByIdAndUpdate db i g = findByIdAndUpdate db i h"
  by (induction db) (auto split: if_splits)

lemma findByIdAndUpdate_twice:
  assumes "findById db i = Some p" and "id_p (g p) = i"
  shows "snd (findByIdAndUpdate (snd (findByIdAndUpdate db i g)) i h)
           = snd (findByIdAndUpdate db i (\<lambda>x. h (g x)))"
  using assms by (induction db) (auto split: if_splits)

lemma findIndex_None_iff: "findIndex P xs = None \<longleftrightarrow> (\<forall>x \<in> set xs. \<not> P x)"
  by (induction xs) auto

lemma findIndex_first:
  "\<forall>x \<in> set xs. \<not> P x \<Longrightarrow> P y \<Longrightarrow> findIndex P (xs @ y # ys) = Some (length xs)"
  by (induction xs) auto

lemma mapAt_length: "mapAt (length xs) g (xs @ y # ys) = xs @ g y # ys"
  by (induction xs) auto

lemma incStock_hit:
  assumes "colors p = cs @ c # cs'" and "sizes c = ss @ s # ss'"
  shows "incStock (length cs) (length ss) q p
           = p\<lparr> colors := cs @ c\<lparr> sizes := ss @ s\<lparr> stock := jsAdd (stock s) q \<rparr> # ss' \<rparr> # cs' \<rparr>"
  using assms by (simp add: incStock_def mapAt_length)

lemma id_p_incStock: "id_p (incStock a b q p) = id_p p"
  by (simp add: incStock_def)

lemma updateStock_hit:
  assumes db: "findById db i = Some p"
    and cs: "colors p = cs @ c # cs'" "colorName b \<notin> set (map name_c cs)" "name_c c = colorName b"
    and ss: "sizes c = ss @ s # ss'" "size_b b \<notin> set (map size_s ss)" "size_s s = size_b b"
    and q: "quantity b \<noteq> NaN"
  shows "updateStock db (Some i) b
           = (Success 200 (Some ''Stock updated successfully'')
                (Some (incStock (length cs) (length ss) (quantity b) p)),
              snd (findByIdAndUpdate db i (incStock (length cs) (length ss) (quantity b))))"
proof -
  have ci: "findIndex (\<lambda>c. name_c c = colorName b) (colors p) = Some (length cs)"
    using cs by (force intro!: findIndex_first)
  have c: "colors p ! length cs = c"
    using cs(1) by simp
  have si: "findIndex (\<lambda>s. size_s s = size_b b) (sizes c) = Some (length ss)"
    using ss by (force intro!: findIndex_first)
  have "fst (findByIdAndUpdate db i (incStock (length cs) (length ss) (quantity b)))
          = Some (incStock (length cs) (length ss) (quantity b) p)"
    by (rule findByIdAndUpdate_found [OF db])
  then show ?thesis
    using q by (auto simp: updateStock_def db ci c si split: prod.splits)
qed

lemma find_user_None: "List.find (\<lambda>r. user r = u) rs = None \<longleftrightarrow> u \<notin> set (map user rs)"
  by (induction rs) auto

lemma id_p_applySet: "id_p (applySet u p) = id_p p"
  by (simp add: applySet_def)

lemma keyBefore_asym: "keyBefore env t k p q \<Longrightarrow> \<not> keyBefore env t k q p"
  by (cases k; cases "snd k") (auto split: option.splits if_splits)

lemma keyBefore_trans:
  "keyBefore env t k p q \<Longrightarrow> keyBefore env t k q r \<Longrightarrow> keyBefore env t k p r"
  by (cases k; cases "snd k") (auto split: option.splits if_splits)

lemma keyBefore_negtrans:
  "\<not> keyBefore env t k p q \<Longrightarrow> \<not> keyBefore env t k q r \<Longrightarrow> \<not> keyBefore env t k p r"
  by (cases k; cases "snd k") (auto split: option.splits if_splits)

lemma docLe_total: "docLe env t ks p q \<or> docLe env t ks q p"
  by (induction ks) (auto dest: keyBefore_asym)

lemma docLe_trans:
  "docLe env t ks p q \<Longrightarrow> docLe env t ks q r \<Longrightarrow> docLe env t ks p r"
proof (induction ks)
  case Nil
  show ?case by simp
next
  case (Cons k ks)
  let ?b = "keyBefore env t k"
  from Cons.prems have pq: "?b p q \<or> (\<not> ?b q p \<and> docLe env t ks p q)"
    and qr: "?b q r \<or> (\<not> ?b r q \<and> docLe env t ks q r)"
    by simp_all
  show ?case
  proof (cases "?b p r")
    case True
    then show ?thesis by simp
  next
    case False
    have npq: "\<not> ?b p q"
    proof
      assume "?b p q"
      with False qr keyBefore_trans [of env t k p q r] keyBefore_negtrans [of env t k p r q]
      show False by blast
    qed
    have nqr: "\<not> ?b q r"
    proof
      assume "?b q r"
      with False pq npq keyBefore_negtrans [of env t k q p r]
      show False by blast
    qed
    from npq nqr pq qr have "\<not> ?b r p"
      using keyBefore_negtrans [of env t k r q p] by blast
    moreover from npq nqr pq qr have "docLe env t ks p r"
      using Cons.IH by blast
    ultimately show ?thesis by simp
  qed
qed

lemma sorted_insertDoc:
  assumes total: "\<And>x y. le x y \<or> le y x" and trans: "\<And>x y z. le x y \<Longrightarrow> le y z \<Longrightarrow> le x z"
  shows "sorted_wrt le xs \<Longrightarrow> sorted_wrt le (insertDoc le x xs)"
proof (induction xs)
  case Nil
  show ?case by simp
next
  case (Cons y ys)
  show ?case
  proof (cases "le x y")
    case True
    with Cons.prems show ?thesis by (auto intro: trans)
  next
    case False
    with total have "le y x" by blast
    with False Cons show ?thesis by (auto simp: set_insertDoc)
  qed
qed

lemma sorted_sortDocs:
  assumes "\<And>x y. le x y \<or> le y x" and "\<And>x y z. le x y \<Longrightarrow> le y z \<Longrightarrow> le x z"
  shows "sorted_wrt le (sortDocs le xs)"
  by (induction xs) (simp_all add: sortDocs_def sorted_insertDoc [OF assms])

lemma findDocs_sorted:
  assumes "findDocs env db f srt skipN limitN = Inr ps"
  shows "sorted_wrt (docLe env (f_text f) srt) ps"
proof -
  let ?le = "docLe env (f_text f) srt"
  let ?ms = "sortDocs ?le (filter (matches env f) db)"
  have s: "sorted_wrt ?le ?ms"
  proof (rule sorted_sortDocs)
    show "?le x y \<or> ?le y x" for x y
      by (rule docLe_total)
    show "?le x y \<Longrightarrow> ?le y z \<Longrightarrow> ?le x z" for x y z
      by (rule docLe_trans)
  qed
  from findDocs_Inr [OF assms] obtain n m where
    "ps = (case m of None \<Rightarrow> drop n ?ms | Some k \<Rightarrow> take k (drop n ?ms))"
    by blast
  with s show ?thesis
    by (auto split: option.splits intro: sorted_wrt_take sorted_wrt_drop)
qed

lemma buildSort_search:
  assumes "q_sortBy rq = Some f" "f \<noteq> []" "q_search rq = Some s" "s \<noteq> []"
  shows "buildSort rq
           = (if f = ''score'' \<or> f = ''__proto__'' then [(''score'', MetaTextScore)]
              else [(f, Dir (if q_order rq = Some ''desc'' then - 1 else 1)),
                    (''score'', MetaTextScore)])"
  using assms by (auto simp: buildSort_def whenGiven_def Let_def)

lemma parseInt_undefined: "parseInt None = NaN"
  by (simp add: parseInt_def isWhiteSpace_def isDigit_def)

lemma pageNum_omitted: "pageNum (rq\<lparr> q_page := None \<rparr>) = Fin 1"
  by (simp add: pageNum_def orDefault_def parseInt_undefined)

lemma limitNum_omitted: "limitNum (rq\<lparr> q_limit := None \<rparr>) = Fin 12"
  by (simp add: limitNum_def orDefault_def parseInt_undefined)

lemma limitNum_page: "limitNum (rq\<lparr> q_page := x \<rparr>) = limitNum rq"
  by (simp add: limitNum_def)

lemma pageNum_limit: "pageNum (rq\<lparr> q_limit := x \<rparr>) = pageNum rq"
  by (simp add: pageNum_def)

lemma buildQuery_page: "buildQuery (rq\<lparr> q_page := x \<rparr>) = buildQuery rq"
  by (simp add: buildQuery_def)

lemma buildQuery_limit: "buildQuery (rq\<lparr> q_limit := x \<rparr>) = buildQuery rq"
  by (simp add: buildQuery_def)

lemma buildSort_page: "buildSort (rq\<lparr> q_page := x \<rparr>) = buildSort rq"
  by (simp add: buildSort_def Let_def split: option.splits)

lemma buildSort_limit: "buildSort (rq\<lparr> q_limit := x \<rparr>) = buildSort rq"
  by (simp add: buildSort_def Let_def split: option.splits)


lemma updateStock_both:
  assumes db: "findById db i = Some p"
    and cs: "colors p = cs @ c # cs'" "cn \<notin> set (map name_c cs)" "name_c c = cn"
    and ss: "sizes c = ss @ s # ss'" "sz \<notin> set (map size_s ss)" "size_s s = sz"
    and d: "d \<noteq> NaN" "e \<noteq> NaN"
  shows "snd (updateStock (snd (updateStock db (Some i) \<lparr> colorName = cn, size_b = sz, quantity = d \<rparr>))
               (Some i) \<lparr> colorName = cn, size_b = sz, quantity = e \<rparr>)
         = snd (findByIdAndUpdate db i
                  (\<lambda>x. p\<lparr> colors := cs @ c\<lparr> sizes := ss @ s\<lparr> stock := jsAdd (jsAdd (stock s) d) e \<rparr> # ss' \<rparr>
                                 # cs' \<rparr>))"
proof -
  let ?b = "\<lambda>d. \<lparr> colorName = cn, size_b = sz, quantity = d \<rparr>"
  let ?g = "\<lambda>d. incStock (length cs) (length ss) d"
  let ?at = "\<lambda>v. p\<lparr> colors := cs @ c\<lparr> sizes := ss @ s\<lparr> stock := v \<rparr> # ss' \<rparr> # cs' \<rparr>"
  have i: "id_p p = i"
    by (rule findById_Some_id [OF db])
  have g1: "?g d p = ?at (jsAdd (stock s) d)" for d
    using cs(1) ss(1) by (simp add: incStock_hit)
  have g2: "?g e (?at v) = ?at (jsAdd v e)" for e v
    using incStock_hit [of "?at v" cs "c\<lparr> sizes := ss @ s\<lparr> stock := v \<rparr> # ss' \<rparr>" cs' ss
        "s\<lparr> stock := v \<rparr>" ss' e]
    by simp
  have first: "snd (updateStock db (Some i) (?b d)) = snd (findByIdAndUpdate db i (?g d))"
    using updateStock_hit [OF db, of cs c cs' "?b d" ss s ss'] cs ss d by simp
  have look: "findById (snd (findByIdAndUpdate db i (?g d))) i = Some (?at (jsAdd (stock s) d))"
    using findByIdAndUpdate_lookup [of db i p "?g d" i] db i g1 by (simp add: id_p_incStock)
  have second: "snd (updateStock (snd (findByIdAndUpdate db i (?g d))) (Some i) (?b e))
      = snd (findByIdAndUpdate (snd (findByIdAndUpdate db i (?g d))) i (?g e))"
    using updateStock_hit [OF look, of cs "c\<lparr> sizes := ss @ s\<lparr> stock := jsAdd (stock s) d \<rparr> # ss' \<rparr>" cs'
        "?b e" ss "s\<lparr> stock := jsAdd (stock s) d \<rparr>" ss'] cs ss d
    by simp
  have "snd (findByIdAndUpdate (snd (findByIdAndUpdate db i (?g d))) i (?g e))
      = snd (findByIdAndUpdate db i (\<lambda>x. ?g e (?g d x)))"
    using findByIdAndUpdate_twice [of db i p "?g d" "?g e"] db i by (simp add: id_p_incStock)
  also have "\<dots> = snd (findByIdAndUpdate db i (\<lambda>x. ?at (jsAdd (jsAdd (stock s) d) e)))"
    using findByIdAndUpdate_cong [of db i p "\<lambda>x. ?g e (?g d x)" "\<lambda>x. ?at (jsAdd (jsAdd (stock s) d) e)"] db
    by (simp add: g1 g2)
  finally show ?thesis by (simp add: first second)
qed

lemma jsAdd_int_twice:
  assumes "\<bar>a + x\<bar> \<le> 2 ^ 53" "\<bar>a + x + y\<bar> \<le> 2 ^ 53"
  shows "jsAdd (jsAdd (Fin (of_int a)) (Fin (of_int x))) (Fin (of_int y)) = Fin (of_int (a + x + y))"
  using assms by (simp only: jsAdd_int_exact)

lemma checkedReview_Some:
  assumes "checkedReview env d = Some r"
  shows "user r = d_user d" and "userName r = d_userName d" and "rating r = d_rating d"
    and "castString env (d_comment d) = Some (comment r)" and "createdAt_r r = d_createdAt d"
    and "reviewValid env r" and "d_rating d \<noteq> NaN"
  using assms by (auto simp: checkedReview_def castReview_def split: option.splits if_splits)

lemma pushReview_Some:
  "checkedReview env d = Some r \<Longrightarrow>
     pushReview env db i d = Inr (findByIdAndUpdate db i (\<lambda>p. p\<lparr> reviews := reviews p @ [r] \<rparr>))"
  by (simp add: pushReview_def)

lemma pushReview_None:
  "checkedReview env d = None \<Longrightarrow> \<exists>e. pushReview env db i d = Inl e"
  by (simp add: pushReview_def)

lemma push_lookup:
  assumes db: "findById db i = Some p"
  shows "fst (findByIdAndUpdate db i (\<lambda>p. p\<lparr> reviews := reviews p @ [r] \<rparr>))
           = Some (p\<lparr> reviews := reviews p @ [r] \<rparr>)"
    and "findById (snd (findByIdAndUpdate db i (\<lambda>p. p\<lparr> reviews := reviews p @ [r] \<rparr>))) j
           = (if j = i then Some (p\<lparr> reviews := reviews p @ [r] \<rparr>) else findById db j)"
proof -
  let ?g = "\<lambda>p. p\<lparr> reviews := reviews p @ [r] \<rparr>"
  show "fst (findByIdAndUpdate db i ?g) = Some (?g p)"
    by (rule findByIdAndUpdate_found [OF db])
  have "id_p (?g p) = i"
    using findById_Some_id [OF db] by simp
  from findByIdAndUpdate_lookup [of db i p ?g, OF db this]
  show "findById (snd (findByIdAndUpdate db i ?g)) j = (if j = i then Some (?g p) else findById db j)" .
qed





section \<open>Properties of the tasks\<close>

lemma findIndex_mapAt: "(\<And>x. P (g x) = P x) \<Longrightarrow> findIndex P (mapAt n g xs) = findIndex P xs"
  by (induction n g xs rule: mapAt.induct) simp_all

lemma findIndex_Some_less: "findIndex P xs = Some k \<Longrightarrow> k < length xs"
  by (induction xs arbitrary: k) (auto split: if_splits)

lemma nth_mapAt: "k < length xs \<Longrightarrow> mapAt n g xs ! k = (if k = n then g (xs ! k) else xs ! k)"
  by (induction n g xs arbitrary: k rule: mapAt.induct) (auto simp: nth_Cons split: nat.splits)

lemma findById_update:
  assumes "\<And>p. id_p (g p) = id_p p"
  shows "findById (snd (findByIdAndUpdate db j g)) i
           = (if i = j then map_option g (findById db i) else findById db i)"
  using assms by (induction db) auto

lemma findIndex_colors_incStock:
  "findIndex (\<lambda>c. name_c c = cn) (colors (incStock a b q p))
     = findIndex (\<lambda>c. name_c c = cn) (colors p)"
  by (simp add: incStock_def findIndex_mapAt)

lemma findIndex_sizes_incStock:
  assumes "k < length (colors p)"
  shows "findIndex (\<lambda>s. size_s s = sz) (sizes (colors (incStock a b q p) ! k))
     = findIndex (\<lambda>s. size_s s = sz) (sizes (colors p ! k))"
  using assms by (simp add: incStock_def nth_mapAt findIndex_mapAt)

lemma stockStep_read_db: "snd (stockStep db (StockStart i body)) = db"
  by (cases i) (simp_all split: option.splits)

text \<open>The lookup of a stock adjustment finds the same after any step of another one.\<close>

lemma stockStep_read_after_step:
  "fst (stockStep (snd (stockStep db t)) (StockStart i body)) = fst (stockStep db (StockStart i body))"
proof (cases t)
  case (StockStart j b)
  then show ?thesis by (simp only: stockStep_read_db)
next
  case (StockDone r)
  then show ?thesis by simp
next
  case (StockFound j a b q)
  show ?thesis
  proof (cases "q = NaN \<or> i = None")
    case True
    then show ?thesis by (auto simp: StockFound)
  next
    case False
    then obtain k where i: "i = Some k" by auto
    let ?g = "incStock a b q"
    have db': "snd (stockStep db t) = snd (findByIdAndUpdate db j ?g)"
      using False by (simp add: StockFound split: prod.splits)
    have look: "findById (snd (findByIdAndUpdate db j ?g)) k
        = map_option (\<lambda>p. if k = j then ?g p else p) (findById db k)"
      by (cases "findById db k") (auto simp: findById_update id_p_incStock)
    show ?thesis
    proof (cases "findById db k")
      case None
      then show ?thesis by (simp add: db' i look)
    next
      case (Some p)
      show ?thesis
      proof (cases "findIndex (\<lambda>c. name_c c = colorName body) (colors p)")
        case None
        then show ?thesis
          by (simp add: db' i look Some findIndex_colors_incStock)
      next
        case (Some ci)
        then have "ci < length (colors p)"
          by (rule findIndex_Some_less)
        then show ?thesis
          using Some \<open>findById db k = Some p\<close>
          by (simp add: db' i look findIndex_colors_incStock findIndex_sizes_incStock
              split: option.splits)
      qed
    qed
  qed
qed

lemma stockAwaits_step: "stockAwaits (fst (stockStep db t)) \<le> stockAwaits t - 1"
proof (cases t)
  case (StockStart i body)
  then show ?thesis by (cases i) (simp_all split: option.splits)
next
  case (StockFound i a b q)
  then show ?thesis by (simp split: prod.splits)
next
  case (StockDone r)
  then show ?thesis by simp
qed

lemma stockAwaits_0: "stockAwaits t = 0 \<Longrightarrow> \<exists>r. t = StockDone r"
  by (cases t) simp_all

lemma stockStep_last:
  assumes "stockAwaits t \<le> 1"
  shows "\<exists>r. fst (stockStep db t) = StockDone r"
proof -
  have "stockAwaits (fst (stockStep db t)) \<le> stockAwaits t - 1"
    by (rule stockAwaits_step)
  with assms have "stockAwaits (fst (stockStep db t)) = 0" by simp
  then show ?thesis by (rule stockAwaits_0)
qed

lemma stockRun_last:
  assumes "stockAwaits t \<le> 1"
  shows "stockRun db t = stockStep db t"
proof -
  from stockStep_last [OF assms] obtain r where "fst (stockStep db t) = StockDone r" ..
  then show ?thesis
    by (cases "stockStep db t") (simp add: stockRun_def)
qed

lemma stockRun_Done: "\<exists>r. fst (stockRun db t) = StockDone r"
proof -
  have "stockAwaits (fst (stockStep db t)) \<le> stockAwaits t - 1"
    by (rule stockAwaits_step)
  moreover have "stockAwaits t \<le> 2"
    by (cases t) simp_all
  ultimately have "stockAwaits (fst (stockStep db t)) \<le> 1" by simp
  from stockStep_last [OF this, of "snd (stockStep db t)"] show ?thesis
    by (cases "stockStep db t") (simp add: stockRun_def)
qed

lemma stockRun_step: "stockRun (snd (stockStep db t)) (fst (stockStep db t)) = stockRun db t"
proof -
  obtain r where r: "fst (stockRun db t) = StockDone r"
    using stockRun_Done by blast
  have "stockStep (snd (stockStep db t)) (fst (stockStep db t)) = stockRun db t"
    by (cases "stockStep db t") (simp add: stockRun_def)
  then have "stockRun (snd (stockStep db t)) (fst (stockStep db t))
      = stockStep (snd (stockRun db t)) (fst (stockRun db t))"
    by (cases "stockRun db t") (simp add: stockRun_def [of "snd (stockStep db t)"])
  also have "\<dots> = stockRun db t"
    using r by (cases "stockRun db t") simp
  finally show ?thesis .
qed

lemma stockStep_read_after_run:
  "fst (stockStep (snd (stockRun db t)) (StockStart i body)) = fst (stockStep db (StockStart i body))"
proof -
  have "snd (stockRun db t) = snd (stockStep (snd (stockStep db t)) (fst (stockStep db t)))"
    by (cases "stockStep db t") (simp add: stockRun_def)
  then show ?thesis
    by (simp only: stockStep_read_after_step)
qed

lemma stockRun_Start:
  "stockRun db' (StockStart i body) = stockStep db' (fst (stockStep db' (StockStart i body)))"
  using stockStep_read_db [of db' i body]
  by (cases "stockStep db' (StockStart i body)") (simp add: stockRun_def)

text \<open>A stock adjustment run alone is the handler.\<close>

lemma stockRun_updateStock:
  "stockRun db (StockStart i body)
     = (StockDone (fst (updateStock db i body)), snd (updateStock db i body))"
  by (cases i)
    (auto simp: stockRun_def updateStock_def split: option.splits prod.splits)

text \<open>
  Two stock adjustments, interleaved in any way that lets each make its store calls, end as
  they do when one runs to its end before the other starts.
\<close>

lemma interleave_stock_serial:
  assumes "stockAwaits a \<le> count_list sched True" and "stockAwaits b \<le> count_list sched False"
  shows "interleave stockStep sched (a, b, db)
           = (fst (stockRun db a), fst (stockRun (snd (stockRun db a)) b),
              snd (stockRun (snd (stockRun db a)) b))
       \<or> interleave stockStep sched (a, b, db)
           = (fst (stockRun (snd (stockRun db b)) a), fst (stockRun db b),
              snd (stockRun (snd (stockRun db b)) a))"
  using assms
proof (induction sched arbitrary: a b db)
  case Nil
  then obtain ra rb where "a = StockDone ra" "b = StockDone rb"
    using stockAwaits_0 [of a] stockAwaits_0 [of b] by auto
  then show ?case by (simp add: stockRun_def)
next
  case (Cons x sched)
  let ?AB = "\<lambda>a b db. (fst (stockRun db a), fst (stockRun (snd (stockRun db a)) b),
              snd (stockRun (snd (stockRun db a)) b))"
  let ?BA = "\<lambda>a b db. (fst (stockRun (snd (stockRun db b)) a), fst (stockRun db b),
              snd (stockRun (snd (stockRun db b)) a))"
  show ?case
  proof (cases x)
    case True
    define a1 db1 where "a1 = fst (stockStep db a)" and "db1 = snd (stockStep db a)"
    have run: "interleave stockStep (x # sched) (a, b, db) = interleave stockStep sched (a1, b, db1)"
      by (simp add: True a1_def db1_def)
    have "stockAwaits a1 \<le> stockAwaits a - 1"
      unfolding a1_def by (rule stockAwaits_step)
    with Cons.prems have pa: "stockAwaits a1 \<le> count_list sched True"
      and pb: "stockAwaits b \<le> count_list sched False"
      by (simp_all add: True)
    have k1: "?AB a1 b db1 = ?AB a b db"
      by (simp add: a1_def db1_def stockRun_step)
    have k2: "?BA a1 b db1 = ?BA a b db \<or> ?BA a1 b db1 = ?AB a b db"
    proof (cases a)
      case (StockStart i body)
      have d: "db1 = db"
        by (simp add: db1_def StockStart stockStep_read_db)
      have l: "stockAwaits a1 \<le> 1"
        using \<open>stockAwaits a1 \<le> stockAwaits a - 1\<close> by (simp add: StockStart)
      have "stockRun (snd (stockRun db b)) a
          = stockStep (snd (stockRun db b)) (fst (stockStep (snd (stockRun db b)) a))"
        unfolding StockStart by (rule stockRun_Start)
      also have "fst (stockStep (snd (stockRun db b)) a) = a1"
        unfolding StockStart a1_def by (rule stockStep_read_after_run)
      also have "stockStep (snd (stockRun db b)) a1 = stockRun (snd (stockRun db b)) a1"
        by (rule stockRun_last [OF l, symmetric])
      finally show ?thesis
        by (simp add: d)
    next
      case (StockFound i ci si q)
      then have l: "stockAwaits a \<le> 1" by simp
      from stockStep_last [OF l, of db] obtain r where r: "a1 = StockDone r"
        by (auto simp: a1_def)
      have "stockRun db a = (StockDone r, db1)"
        using r by (simp add: stockRun_last [OF l] a1_def db1_def prod_eq_iff)
      then have "?BA a1 b db1 = ?AB a b db"
        by (simp add: r stockRun_def)
      then show ?thesis ..
    next
      case (StockDone r)
      then have "a1 = a" "db1 = db"
        by (simp_all add: a1_def db1_def)
      then show ?thesis by simp
    qed
    from Cons.IH [OF pa pb, of db1] k1 k2 show ?thesis
      unfolding run by metis
  next
    case False
    define b1 db1 where "b1 = fst (stockStep db b)" and "db1 = snd (stockStep db b)"
    have run: "interleave stockStep (x # sched) (a, b, db) = interleave stockStep sched (a, b1, db1)"
      by (simp add: False b1_def db1_def)
    have "stockAwaits b1 \<le> stockAwaits b - 1"
      unfolding b1_def by (rule stockAwaits_step)
    with Cons.prems have pa: "stockAwaits a \<le> count_list sched True"
      and pb: "stockAwaits b1 \<le> count_list sched False"
      by (simp_all add: False)
    have k1: "?BA a b1 db1 = ?BA a b db"
      by (simp add: b1_def db1_def stockRun_step)
    have k2: "?AB a b1 db1 = ?AB a b db \<or> ?AB a b1 db1 = ?BA a b db"
    proof (cases b)
      case (StockStart i body)
      have d: "db1 = db"
        by (simp add: db1_def StockStart stockStep_read_db)
      have l: "stockAwaits b1 \<le> 1"
        using \<open>stockAwaits b1 \<le> stockAwaits b - 1\<close> by (simp add: StockStart)
      have "stockRun (snd (stockRun db a)) b
          = stockStep (snd (stockRun db a)) (fst (stockStep (snd (stockRun db a)) b))"
        unfolding StockStart by (rule stockRun_Start)
      also have "fst (stockStep (snd (stockRun db a)) b) = b1"
        unfolding StockStart b1_def by (rule stockStep_read_after_run)
      also have "stockStep (snd (stockRun db a)) b1 = stockRun (snd (stockRun db a)) b1"
        by (rule stockRun_last [OF l, symmetric])
      finally show ?thesis
        by (simp add: d)
    next
      case (StockFound i ci si q)
      then have l: "stockAwaits b \<le> 1" by simp
      from stockStep_last [OF l, of db] obtain r where r: "b1 = StockDone r"
        by (auto simp: b1_def)
      have "stockRun db b = (StockDone r, db1)"
        using r by (simp add: stockRun_last [OF l] b1_def db1_def prod_eq_iff)
      then have "?AB a b1 db1 = ?BA a b db"
        by (simp add: r stockRun_def)
      then show ?thesis ..
    next
      case (StockDone r)
      then have "b1 = b" "db1 = db"
        by (simp_all add: b1_def db1_def)
      then show ?thesis by simp
    qed
    from Cons.IH [OF pa pb, of db1] k1 k2 show ?thesis
      unfolding run by metis
  qed
qed

lemma reviewStep_addReview:
  "reviewStep env (snd (reviewStep env db (ReviewStart i usr now body)))
       (fst (reviewStep env db (ReviewStart i usr now body)))
     = (ReviewDone (fst (addReview env db now usr i body)), snd (addReview env db now usr i body))"
  by (cases i) (auto simp: addReview_def split: option.splits sum.splits prod.splits)

lemma reviewAwaits_step: "reviewAwaits (fst (reviewStep env db t)) \<le> reviewAwaits t - 1"
proof (cases t)
  case (ReviewStart i usr now body)
  then show ?thesis by (cases i) (simp_all split: option.splits)
next
  case (ReviewChecked i d)
  then show ?thesis by (simp split: sum.splits prod.splits)
next
  case (ReviewDone r)
  then show ?thesis by simp
qed

lemma reviewAwaits_0: "reviewAwaits t = 0 \<Longrightarrow> \<exists>r. t = ReviewDone r"
  by (cases t) simp_all

text \<open>Two review submissions that each make their store calls are both answered.\<close>

lemma interleave_review_done:
  assumes "reviewAwaits a \<le> count_list sched True" and "reviewAwaits b \<le> count_list sched False"
  shows "\<exists>ra rb db'. interleave (reviewStep env) sched (a, b, db) = (ReviewDone ra, ReviewDone rb, db')"
  using assms
proof (induction sched arbitrary: a b db)
  case Nil
  then obtain ra rb where "a = ReviewDone ra" "b = ReviewDone rb"
    using reviewAwaits_0 [of a] reviewAwaits_0 [of b] by auto
  then show ?case by simp
next
  case (Cons x sched)
  show ?case
  proof (cases x)
    case True
    have "reviewAwaits (fst (reviewStep env db a)) \<le> reviewAwaits a - 1"
      by (rule reviewAwaits_step)
    with Cons.prems have "reviewAwaits (fst (reviewStep env db a)) \<le> count_list sched True"
      and "reviewAwaits b \<le> count_list sched False"
      by (simp_all add: True)
    from Cons.IH [OF this, of "snd (reviewStep env db a)"] show ?thesis
      by (simp add: True)
  next
    case False
    have "reviewAwaits (fst (reviewStep env db b)) \<le> reviewAwaits b - 1"
      by (rule reviewAwaits_step)
    with Cons.prems have "reviewAwaits a \<le> count_list sched True"
      and "reviewAwaits (fst (reviewStep env db b)) \<le> count_list sched False"
      by (simp_all add: False)
    from Cons.IH [OF this, of "snd (reviewStep env db b)"] show ?thesis
      by (simp add: False)
  qed
qed

text \<open>
  One step of a review submission on an existing product: the task moves on, and either
  the collection stays as it is, or the task is answered with a success and its review is
  the new last review of the product.
\<close>

lemma reviewStep_effect:
  assumes q: "findById db i = Some q"
    and ok: "t = ReviewStart (Some i) u n body \<or> t = ReviewChecked i (reviewDraft u n body)
               \<or> (\<exists>r. t = ReviewDone r)"
  shows "(fst (reviewStep env db t) = ReviewChecked i (reviewDraft u n body)
            \<or> (\<exists>r. fst (reviewStep env db t) = ReviewDone r))
       \<and> ((reviewAdded (fst (reviewStep env db t)) = reviewAdded t \<and> snd (reviewStep env db t) = db)
          \<or> (\<not> reviewAdded t \<and> reviewAdded (fst (reviewStep env db t))
              \<and> (\<exists>r. checkedReview env (reviewDraft u n body) = Some r
                   \<and> findById (snd (reviewStep env db t)) i = Some (q\<lparr> reviews := reviews q @ [r] \<rparr>)
                   \<and> (\<forall>j. j \<noteq> i \<longrightarrow> findById (snd (reviewStep env db t)) j = findById db j))))"
proof -
  from ok consider (start) "t = ReviewStart (Some i) u n body"
    | (checked) "t = ReviewChecked i (reviewDraft u n body)"
    | (answered) r where "t = ReviewDone r"
    by blast
  then show ?thesis
  proof cases
    case start
    then show ?thesis
      by (auto simp: q split: option.splits)
  next
    case checked
    show ?thesis
    proof (cases "checkedReview env (reviewDraft u n body)")
      case None
      then show ?thesis
        by (simp add: checked pushReview_def)
    next
      case (Some r)
      let ?g = "\<lambda>p. p\<lparr> reviews := reviews p @ [r] \<rparr>"
      note look = push_lookup [OF q, of r]
      have "reviewStep env db t
          = (ReviewDone (Success 201 (Some ''Review added successfully'')
                (fst (findByIdAndUpdate db i ?g))), snd (findByIdAndUpdate db i ?g))"
        by (simp add: checked pushReview_Some [OF Some] split: prod.splits)
      then show ?thesis
        using Some by (simp add: checked look(2))
    qed
  next
    case answered
    then show ?thesis by simp
  qed
qed

text \<open>
  Two review submissions on one product, interleaved in any way: at every moment the
  reviews of the product are those it had, followed by the review of each submission that
  has been answered with a success, once each, and no other product has changed.
\<close>

lemma interleave_review_kept:
  assumes p: "findById db i = Some p"
    and run: "interleave (reviewStep env) sched
                (ReviewStart (Some i) ua na ba, ReviewStart (Some i) ub nb bb, db) = (ta, tb, db')"
  shows "\<exists>la lb.
           (reviewAdded ta \<longrightarrow> (\<exists>r. checkedReview env (reviewDraft ua na ba) = Some r \<and> la = [r]))
         \<and> (\<not> reviewAdded ta \<longrightarrow> la = [])
         \<and> (reviewAdded tb \<longrightarrow> (\<exists>r. checkedReview env (reviewDraft ub nb bb) = Some r \<and> lb = [r]))
         \<and> (\<not> reviewAdded tb \<longrightarrow> lb = [])
         \<and> (findById db' i = Some (p\<lparr> reviews := reviews p @ la @ lb \<rparr>)
             \<or> findById db' i = Some (p\<lparr> reviews := reviews p @ lb @ la \<rparr>))
         \<and> (\<forall>j. j \<noteq> i \<longrightarrow> findById db' j = findById db j)"
proof -
  define okA where "okA t \<longleftrightarrow> t = ReviewStart (Some i) ua na ba
      \<or> t = ReviewChecked i (reviewDraft ua na ba) \<or> (\<exists>r. t = ReviewDone r)" for t
  define okB where "okB t \<longleftrightarrow> t = ReviewStart (Some i) ub nb bb
      \<or> t = ReviewChecked i (reviewDraft ub nb bb) \<or> (\<exists>r. t = ReviewDone r)" for t
  define kept where "kept d t l \<longleftrightarrow>
      (reviewAdded t \<longrightarrow> (\<exists>r. checkedReview env d = Some r \<and> l = [r])) \<and> (\<not> reviewAdded t \<longrightarrow> l = [])"
    for d t and l :: "review list"
  define inv where "inv c \<longleftrightarrow>
      (case c of (a, b, s) \<Rightarrow>
         okA a \<and> okB b
       \<and> (\<exists>la lb. kept (reviewDraft ua na ba) a la \<and> kept (reviewDraft ub nb bb) b lb
             \<and> (findById s i = Some (p\<lparr> reviews := reviews p @ la @ lb \<rparr>)
                 \<or> findById s i = Some (p\<lparr> reviews := reviews p @ lb @ la \<rparr>)))
       \<and> (\<forall>j. j \<noteq> i \<longrightarrow> findById s j = findById db j))" for c
  have stepA: "inv (fst (reviewStep env s a), b, snd (reviewStep env s a))" if "inv (a, b, s)" for a b s
  proof -
    from that obtain la lb where ok: "okA a" "okB b"
      and k: "kept (reviewDraft ua na ba) a la" "kept (reviewDraft ub nb bb) b lb"
      and f: "findById s i = Some (p\<lparr> reviews := reviews p @ la @ lb \<rparr>)
                 \<or> findById s i = Some (p\<lparr> reviews := reviews p @ lb @ la \<rparr>)"
      and o: "\<forall>j. j \<noteq> i \<longrightarrow> findById s j = findById db j"
      unfolding inv_def by auto
    from f obtain q where q: "findById s i = Some q"
      and qq: "q = p\<lparr> reviews := reviews p @ la @ lb \<rparr> \<or> q = p\<lparr> reviews := reviews p @ lb @ la \<rparr>"
      by auto
    let ?a = "fst (reviewStep env s a)" and ?s = "snd (reviewStep env s a)"
    from reviewStep_effect [OF q, of a ua na ba env] ok(1)
    have ok': "okA ?a"
      and eff: "(reviewAdded ?a = reviewAdded a \<and> ?s = s)
          \<or> (\<not> reviewAdded a \<and> reviewAdded ?a
              \<and> (\<exists>r. checkedReview env (reviewDraft ua na ba) = Some r
                   \<and> findById ?s i = Some (q\<lparr> reviews := reviews q @ [r] \<rparr>)
                   \<and> (\<forall>j. j \<noteq> i \<longrightarrow> findById ?s j = findById s j)))"
      unfolding okA_def by blast+
    from eff show ?thesis
    proof
      assume same: "reviewAdded ?a = reviewAdded a \<and> ?s = s"
      then have "kept (reviewDraft ua na ba) ?a la"
        using k(1) by (simp add: kept_def)
      with same ok' ok(2) k(2) f o show ?thesis
        unfolding inv_def by auto
    next
      assume new: "\<not> reviewAdded a \<and> reviewAdded ?a
              \<and> (\<exists>r. checkedReview env (reviewDraft ua na ba) = Some r
                   \<and> findById ?s i = Some (q\<lparr> reviews := reviews q @ [r] \<rparr>)
                   \<and> (\<forall>j. j \<noteq> i \<longrightarrow> findById ?s j = findById s j))"
      then obtain r where r: "checkedReview env (reviewDraft ua na ba) = Some r"
        and fs: "findById ?s i = Some (q\<lparr> reviews := reviews q @ [r] \<rparr>)"
        and os: "\<forall>j. j \<noteq> i \<longrightarrow> findById ?s j = findById s j"
        by blast
      from new k(1) have "la = []"
        by (simp add: kept_def)
      with qq have "q\<lparr> reviews := reviews q @ [r] \<rparr> = p\<lparr> reviews := reviews p @ lb @ [r] \<rparr>"
        by auto
      with fs have "findById ?s i = Some (p\<lparr> reviews := reviews p @ lb @ [r] \<rparr>)"
        by simp
      moreover have "kept (reviewDraft ua na ba) ?a [r]"
        using new r by (simp add: kept_def)
      ultimately have "\<exists>la lb. kept (reviewDraft ua na ba) ?a la \<and> kept (reviewDraft ub nb bb) b lb
             \<and> (findById ?s i = Some (p\<lparr> reviews := reviews p @ la @ lb \<rparr>)
                 \<or> findById ?s i = Some (p\<lparr> reviews := reviews p @ lb @ la \<rparr>))"
        using k(2) by blast
      moreover have "\<forall>j. j \<noteq> i \<longrightarrow> findById ?s j = findById db j"
        using os o by simp
      ultimately show ?thesis
        using ok' ok(2) unfolding inv_def by simp
    qed
  qed
  have stepB: "inv (a, fst (reviewStep env s b), snd (reviewStep env s b))" if "inv (a, b, s)" for a b s
  proof -
    from that obtain la lb where ok: "okA a" "okB b"
      and k: "kept (reviewDraft ua na ba) a la" "kept (reviewDraft ub nb bb) b lb"
      and f: "findById s i = Some (p\<lparr> reviews := reviews p @ la @ lb \<rparr>)
                 \<or> findById s i = Some (p\<lparr> reviews := reviews p @ lb @ la \<rparr>)"
      and o: "\<forall>j. j \<noteq> i \<longrightarrow> findById s j = findById db j"
      unfolding inv_def by auto
    from f obtain q where q: "findById s i = Some q"
      and qq: "q = p\<lparr> reviews := reviews p @ la @ lb \<rparr> \<or> q = p\<lparr> reviews := reviews p @ lb @ la \<rparr>"
      by auto
    let ?b = "fst (reviewStep env s b)" and ?s = "snd (reviewStep env s b)"
    from reviewStep_effect [OF q, of b ub nb bb env] ok(2)
    have ok': "okB ?b"
      and eff: "(reviewAdded ?b = reviewAdded b \<and> ?s = s)
          \<or> (\<not> reviewAdded b \<and> reviewAdded ?b
              \<and> (\<exists>r. checkedReview env (reviewDraft ub nb bb) = Some r
                   \<and> findById ?s i = Some (q\<lparr> reviews := reviews q @ [r] \<rparr>)
                   \<and> (\<forall>j. j \<noteq> i \<longrightarrow> findById ?s j = findById s j)))"
      unfolding okB_def by blast+
    from eff show ?thesis
    proof
      assume same: "reviewAdded ?b = reviewAdded b \<and> ?s = s"
      then have "kept (reviewDraft ub nb bb) ?b lb"
        using k(2) by (simp add: kept_def)
      with same ok' ok(1) k(1) f o show ?thesis
        unfolding inv_def by auto
    next
      assume new: "\<not> reviewAdded b \<and> reviewAdded ?b
              \<and> (\<exists>r. checkedReview env (reviewDraft ub nb bb) = Some r
                   \<and> findById ?s i = Some (q\<lparr> reviews := reviews q @ [r] \<rparr>)
                   \<and> (\<forall>j. j \<noteq> i \<longrightarrow> findById ?s j = findById s j))"
      then obtain r where r: "checkedReview env (reviewDraft ub nb bb) = Some r"
        and fs: "findById ?s i = Some (q\<lparr> reviews := reviews q @ [r] \<rparr>)"
        and os: "\<forall>j. j \<noteq> i \<longrightarrow> findById ?s j = findById s j"
        by blast
      from new k(2) have "lb = []"
        by (simp add: kept_def)
      with qq have "q\<lparr> reviews := reviews q @ [r] \<rparr> = p\<lparr> reviews := reviews p @ la @ [r] \<rparr>"
        by auto
      with fs have "findById ?s i = Some (p\<lparr> reviews := reviews p @ la @ [r] \<rparr>)"
        by simp
      moreover have "kept (reviewDraft ub nb bb) ?b [r]"
        using new r by (simp add: kept_def)
      ultimately have "\<exists>la lb. kept (reviewDraft ua na ba) a la \<and> kept (reviewDraft ub nb bb) ?b lb
             \<and> (findById ?s i = Some (p\<lparr> reviews := reviews p @ la @ lb \<rparr>)
                 \<or> findById ?s i = Some (p\<lparr> reviews := reviews p @ lb @ la \<rparr>))"
        using k(1) by blast
      moreover have "\<forall>j. j \<noteq> i \<longrightarrow> findById ?s j = findById db j"
        using os o by simp
      ultimately show ?thesis
        using ok' ok(1) unfolding inv_def by (simp add: case_prod_beta)
    qed
  qed
  have all: "inv (interleave (reviewStep env) sched c)" if "inv c" for c
    using that
  proof (induction sched arbitrary: c)
    case Nil
    then show ?case by simp
  next
    case (Cons x sched)
    obtain a b s where c: "c = (a, b, s)"
      by (cases c)
    show ?case
    proof (cases x)
      case True
      from Cons.prems have "inv (fst (reviewStep env s a), b, snd (reviewStep env s a))"
        unfolding c by (rule stepA)
      from Cons.IH [OF this] show ?thesis
        by (simp add: c True)
    next
      case False
      from Cons.prems have "inv (a, fst (reviewStep env s b), snd (reviewStep env s b))"
        unfolding c by (rule stepB)
      from Cons.IH [OF this] show ?thesis
        by (simp add: c False)
    qed
  qed
  have "inv (ReviewStart (Some i) ua na ba, ReviewStart (Some i) ub nb bb, db)"
    unfolding inv_def okA_def okB_def kept_def using p by simp
  from all [OF this] have "inv (ta, tb, db')"
    by (simp only: run)
  then show ?thesis
    unfolding inv_def kept_def by auto
qed

text \<open>
  Two adjustments of the same size inside the safe-integer range, interleaved in any way that
  lets each make its store calls: the stock ends at the sum of the old value and both
  quantities.
\<close>

lemma interleave_stock_sum:
  assumes sched: "2 \<le> count_list sched True" "2 \<le> count_list sched False"
    and db: "findById db i = Some p"
    and cs: "colors p = cs @ c # cs'" "cn \<notin> set (map name_c cs)" "name_c c = cn"
    and ss: "sizes c = ss @ s # ss'" "sz \<notin> set (map size_s ss)" "size_s s = sz"
    and st: "stock s = Fin (of_int a)"
    and safe: "\<bar>a + d1\<bar> \<le> 2 ^ 53" "\<bar>a + d2\<bar> \<le> 2 ^ 53" "\<bar>a + d1 + d2\<bar> \<le> 2 ^ 53"
  shows "findById
           (snd (snd (interleave stockStep sched
              (StockStart (Some i) \<lparr> colorName = cn, size_b = sz, quantity = Fin (of_int d1) \<rparr>,
               StockStart (Some i) \<lparr> colorName = cn, size_b = sz, quantity = Fin (of_int d2) \<rparr>,
               db)))) i
         = Some (p\<lparr> colors := cs @ c\<lparr> sizes := ss @ s\<lparr> stock := Fin (of_int (a + d1 + d2)) \<rparr> # ss' \<rparr>
                              # cs' \<rparr>)"
proof -
  let ?at = "\<lambda>v. p\<lparr> colors := cs @ c\<lparr> sizes := ss @ s\<lparr> stock := v \<rparr> # ss' \<rparr> # cs' \<rparr>"
  let ?b1 = "\<lparr> colorName = cn, size_b = sz, quantity = Fin (of_int d1) \<rparr>"
  let ?b2 = "\<lparr> colorName = cn, size_b = sz, quantity = Fin (of_int d2) \<rparr>"
  let ?end = "snd (findByIdAndUpdate db i (\<lambda>x. ?at (Fin (of_int (a + d1 + d2)))))"
  have i: "id_p p = i"
    by (rule findById_Some_id [OF db])
  have n: "Fin (of_int d1) \<noteq> NaN" "Fin (of_int d2) \<noteq> NaN"
    by simp_all
  have s12: "jsAdd (jsAdd (stock s) (Fin (of_int d1))) (Fin (of_int d2)) = Fin (of_int (a + d1 + d2))"
    unfolding st using safe(1,3) by (rule jsAdd_int_twice)
  have "\<bar>a + d2 + d1\<bar> \<le> 2 ^ 53"
    using safe(3) by (simp add: add.commute add.left_commute)
  with safe(2)
  have "jsAdd (jsAdd (stock s) (Fin (of_int d2))) (Fin (of_int d1)) = Fin (of_int (a + d2 + d1))"
    unfolding st by (rule jsAdd_int_twice)
  moreover have "a + d2 + d1 = a + d1 + d2" by simp
  ultimately
  have s21: "jsAdd (jsAdd (stock s) (Fin (of_int d2))) (Fin (of_int d1)) = Fin (of_int (a + d1 + d2))"
    by (simp only:)
  have b12: "snd (updateStock (snd (updateStock db (Some i) ?b1)) (Some i) ?b2) = ?end"
    using updateStock_both [OF db cs ss n(1) n(2)] by (simp only: s12)
  have b21: "snd (updateStock (snd (updateStock db (Some i) ?b2)) (Some i) ?b1) = ?end"
    using updateStock_both [OF db cs ss n(2) n(1)] by (simp only: s21)
  have a1: "stockAwaits (StockStart (Some i) ?b1) \<le> count_list sched True"
    and a2: "stockAwaits (StockStart (Some i) ?b2) \<le> count_list sched False"
    using sched by simp_all
  from interleave_stock_serial [OF a1 a2, of db]
  have "snd (snd (interleave stockStep sched (StockStart (Some i) ?b1, StockStart (Some i) ?b2, db)))
      = ?end"
    by (auto simp: stockRun_updateStock b12 b21)
  moreover have "findById ?end i = Some (?at (Fin (of_int (a + d1 + d2))))"
    using findByIdAndUpdate_lookup [of db i p "\<lambda>x. ?at (Fin (of_int (a + d1 + d2)))" i] db i by simp
  ultimately show ?thesis
    by (simp only:)
qed

section \<open>Catalog query: only active products\<close>

text \<open>
  C1. Whatever parameters a catalog query supplies, every product of the returned data
  array is a product of the collection with \<open>isActive = True\<close>: a product that is not
  active never appears.
\<close>

theorem getProducts_only_active:
  assumes "getProducts env db rq = Success st msg body"
  shows "\<forall>p \<in> set (b_data body). p \<in> set db \<and> isActive p"
proof -
  from assms obtain ps where
    ps: "findDocs env db (buildQuery rq) (buildSort rq) (skipNum rq) (limitNum rq) = Inr ps"
    and body: "b_data body = ps"
    by (auto simp: getProducts_def Let_def split: sum.splits)
  from findDocs_subset [OF ps] body show ?thesis
    by (auto dest: matches_buildQuery_active)
qed

theorem getProducts_only_active_witness:
  "getProducts exEnv exDb noParams
     = Success 200 None
         \<lparr> b_count = 1, b_total = 1, b_page = Fin 1, b_pages = Fin 1, b_data = [exShoe] \<rparr>
   \<and> isActive exShoe \<and> exHidden \<in> set exDb \<and> exHidden \<notin> set [exShoe]"
proof -
  have h: "getProducts exEnv exDb noParams
     = Success 200 None
         \<lparr> b_count = 1, b_total = 1, b_page = Fin 1, b_pages = Fin 1, b_data = [exShoe] \<rparr>"
    by code_simp
  from getProducts_only_active [OF h] have "isActive exShoe" by simp
  moreover have "exHidden \<in> set exDb" by (simp add: exDb_def)
  moreover have "exHidden \<notin> set [exShoe]" by (simp add: exShoe_def exHidden_def)
  ultimately show ?thesis using h by simp
qed

section \<open>Catalog query: malformed numeric parameters\<close>

text \<open>
  C4, as the code has it. Malformed price bounds are not dropped from the filter: the
  handler passes \<^verbatim>\<open>Number(minPrice)\<close>, that is NaN, to the store, and the query fails
  with the generic error although the same query without the bound succeeds.
\<close>

theorem getProducts_malformed_price_counterexample:
  "StringToNumber ''abc'' = NaN
   \<and> getProducts exEnv exDb (noParams\<lparr> q_minPrice := Some ''abc'' \<rparr>)
       = Failure 500 ''Error fetching products''
   \<and> getProducts exEnv exDb ((noParams\<lparr> q_minPrice := Some ''abc'' \<rparr>)\<lparr> q_minPrice := None \<rparr>)
       = Success 200 None
           \<lparr> b_count = 1, b_total = 1, b_page = Fin 1, b_pages = Fin 1, b_data = [exShoe] \<rparr>"
proof (intro conjI)
  show "StringToNumber ''abc'' = NaN"
    by code_simp
  show "getProducts exEnv exDb (noParams\<lparr> q_minPrice := Some ''abc'' \<rparr>)
       = Failure 500 ''Error fetching products''"
    by code_simp
  show "getProducts exEnv exDb ((noParams\<lparr> q_minPrice := Some ''abc'' \<rparr>)\<lparr> q_minPrice := None \<rparr>)
       = Success 200 None
           \<lparr> b_count = 1, b_total = 1, b_page = Fin 1, b_pages = Fin 1, b_data = [exShoe] \<rparr>"
    by code_simp
qed

text \<open>
  C4, amended. A page or limit for which \<^verbatim>\<open>parseInt\<close> yields NaN is treated exactly as
  if the parameter were absent: the page is 1, the limit is 12, and the result is that of
  the same query without the parameter. A price bound for which \<^verbatim>\<open>Number\<close> yields NaN is
  kept in the filter, and the query is answered with status 500 and
  \<^verbatim>\<open>Error fetching products\<close>.
\<close>

theorem getProducts_malformed_numbers:
  "(parseInt (q_page rq) = NaN \<longrightarrow>
      pageNum rq = Fin 1 \<and> getProducts env db rq = getProducts env db (rq\<lparr> q_page := None \<rparr>))
   \<and> (parseInt (q_limit rq) = NaN \<longrightarrow>
      limitNum rq = Fin 12 \<and> getProducts env db rq = getProducts env db (rq\<lparr> q_limit := None \<rparr>))
   \<and> (\<forall>s. (q_minPrice rq = Some s \<or> q_maxPrice rq = Some s) \<and> s \<noteq> [] \<and> StringToNumber s = NaN \<longrightarrow>
        getProducts env db rq = Failure 500 ''Error fetching products'')"
proof (intro conjI allI impI)
  {
    assume a: "parseInt (q_page rq) = NaN"
    then show "pageNum rq = Fin 1"
      by (simp add: pageNum_def orDefault_def)
    then have "skipNum (rq\<lparr> q_page := None \<rparr>) = skipNum rq"
      by (simp add: skipNum_def pageNum_omitted limitNum_page)
    then show "getProducts env db rq = getProducts env db (rq\<lparr> q_page := None \<rparr>)"
      using \<open>pageNum rq = Fin 1\<close>
      by (simp add: getProducts_def buildQuery_page buildSort_page limitNum_page pageNum_omitted
          Let_def cong: sum.case_cong)
  }
  {
    assume a: "parseInt (q_limit rq) = NaN"
    then show "limitNum rq = Fin 12"
      by (simp add: limitNum_def orDefault_def)
    then have "skipNum (rq\<lparr> q_limit := None \<rparr>) = skipNum rq"
      by (simp add: skipNum_def limitNum_omitted pageNum_limit)
    then show "getProducts env db rq = getProducts env db (rq\<lparr> q_limit := None \<rparr>)"
      using \<open>limitNum rq = Fin 12\<close>
      by (simp add: getProducts_def buildQuery_limit buildSort_limit pageNum_limit limitNum_omitted
          Let_def cong: sum.case_cong)
  }
  fix s
  assume "(q_minPrice rq = Some s \<or> q_maxPrice rq = Some s) \<and> s \<noteq> [] \<and> StringToNumber s = NaN"
  then have "\<not> castable (buildQuery rq)"
    by (auto simp: castable_def buildQuery_def optHolds_def whenGiven_def)
  then show "getProducts env db rq = Failure 500 ''Error fetching products''"
    by (simp add: getProducts_def findDocs_def Let_def)
qed

theorem getProducts_malformed_numbers_witness:
  "parseInt (Some ''abc'') = NaN
   \<and> getProducts exEnv exDb (noParams\<lparr> q_page := Some ''abc'' \<rparr>) = getProducts exEnv exDb noParams
   \<and> getProducts exEnv exDb (noParams\<lparr> q_limit := Some ''abc'' \<rparr>) = getProducts exEnv exDb noParams
   \<and> getProducts exEnv exDb (noParams\<lparr> q_maxPrice := Some ''1o0'' \<rparr>)
       = Failure 500 ''Error fetching products''"
proof -
  have abc: "parseInt (Some ''abc'') = NaN"
    by code_simp
  have nan: "StringToNumber ''1o0'' = NaN"
    by code_simp
  have "getProducts exEnv exDb (noParams\<lparr> q_page := Some ''abc'' \<rparr>)
      = getProducts exEnv exDb ((noParams\<lparr> q_page := Some ''abc'' \<rparr>)\<lparr> q_page := None \<rparr>)"
    using getProducts_malformed_numbers [of "noParams\<lparr> q_page := Some ''abc'' \<rparr>" exEnv exDb] abc
    by simp
  moreover have "getProducts exEnv exDb (noParams\<lparr> q_limit := Some ''abc'' \<rparr>)
      = getProducts exEnv exDb ((noParams\<lparr> q_limit := Some ''abc'' \<rparr>)\<lparr> q_limit := None \<rparr>)"
    using getProducts_malformed_numbers [of "noParams\<lparr> q_limit := Some ''abc'' \<rparr>" exEnv exDb] abc
    by simp
  moreover have "getProducts exEnv exDb (noParams\<lparr> q_maxPrice := Some ''1o0'' \<rparr>)
       = Failure 500 ''Error fetching products''"
    using getProducts_malformed_numbers [of "noParams\<lparr> q_maxPrice := Some ''1o0'' \<rparr>" exEnv exDb,
        THEN conjunct2, THEN conjunct2, rule_format, of "''1o0''"] nan
    by simp
  ultimately show ?thesis using abc by (simp add: noParams_def)
qed

section \<open>Catalog query: pagination\<close>




section \<open>Catalog query: sort field first, relevance second\<close>

text \<open>
  C8. When a catalog query supplies a sort field and a search string, the sort
  specification lists the requested field first, in the requested direction, and the
  text score second, and the returned products are in that order: along the data array the
  requested field never goes against the direction, and products that tie on it are in
  order of falling text score. The names \<^verbatim>\<open>score\<close> and \<^verbatim>\<open>__proto__\<close> make no key of
  their own (the first is the key under which the text score is sorted, the second sets
  no property), so the products are then sorted by text score alone; that is the same
  order as long as the products carry no distinguishing field of that name.
\<close>

theorem getProducts_sort_then_relevance:
  assumes sortBy: "q_sortBy rq = Some f" "f \<noteq> []"
    and search: "q_search rq = Some s" "s \<noteq> []"
    and field: "(f \<noteq> ''score'' \<and> f \<noteq> ''__proto__'') \<or> (\<forall>p q. fieldKey env f p = fieldKey env f q)"
    and ok: "getProducts env db rq = Success st msg body"
  shows "buildSort rq
           = (if f = ''score'' \<or> f = ''__proto__'' then [(''score'', MetaTextScore)]
              else [(f, Dir (if q_order rq = Some ''desc'' then - 1 else 1)),
                    (''score'', MetaTextScore)])
       \<and> sorted_wrt
           (\<lambda>p q. (if q_order rq = Some ''desc'' then fieldKey env f q < fieldKey env f p
                    else fieldKey env f p < fieldKey env f q)
                 \<or> (fieldKey env f p = fieldKey env f q \<and> textScore env s q \<le> textScore env s p))
           (b_data body)"
proof -
  note bs = buildSort_search [OF sortBy search]
  have ftext: "f_text (buildQuery rq) = Some s"
    using search by (simp add: buildQuery_def whenGiven_def)
  from ok obtain ps where
    ps: "findDocs env db (buildQuery rq) (buildSort rq) (skipNum rq) (limitNum rq) = Inr ps"
    and body: "b_data body = ps"
    by (auto simp: getProducts_def Let_def split: sum.splits)
  have "sorted_wrt (docLe env (Some s) (buildSort rq)) ps"
    using findDocs_sorted [OF ps] ftext by simp
  then have "sorted_wrt
           (\<lambda>p q. (if q_order rq = Some ''desc'' then fieldKey env f q < fieldKey env f p
                    else fieldKey env f p < fieldKey env f q)
                 \<or> (fieldKey env f p = fieldKey env f q \<and> textScore env s q \<le> textScore env s p))
           ps"
  proof (rule sorted_wrt_mono_rel [rotated])
    fix p q
    assume "docLe env (Some s) (buildSort rq) p q"
    with field show "(if q_order rq = Some ''desc'' then fieldKey env f q < fieldKey env f p
                    else fieldKey env f p < fieldKey env f q)
                 \<or> (fieldKey env f p = fieldKey env f q \<and> textScore env s q \<le> textScore env s p)"
      by (auto simp: bs split: if_splits)
  qed
  with body bs show ?thesis by simp
qed

theorem getProducts_sort_then_relevance_witness:
  "getProducts exEnv exShelf
       (noParams\<lparr> q_search := Some ''Pegasus'', q_sortBy := Some ''price'', q_order := Some ''desc'' \<rparr>)
     = Success 200 None
         \<lparr> b_count = 3, b_total = 3, b_page = Fin 1, b_pages = Fin 1,
           b_data = [exRacer, exTrail, exShoe] \<rparr>
   \<and> fieldKey exEnv ''price'' exShoe < fieldKey exEnv ''price'' exTrail
   \<and> fieldKey exEnv ''price'' exTrail = fieldKey exEnv ''price'' exRacer
   \<and> textScore exEnv ''Pegasus'' exTrail \<le> textScore exEnv ''Pegasus'' exRacer
   \<and> [p \<leftarrow> exShelf. isActive p] = [exShoe, exTrail, exRacer]"
proof -
  let ?rq = "noParams\<lparr> q_search := Some ''Pegasus'', q_sortBy := Some ''price'',
                       q_order := Some ''desc'' \<rparr>"
  have h: "getProducts exEnv exShelf ?rq
     = Success 200 None
         \<lparr> b_count = 3, b_total = 3, b_page = Fin 1, b_pages = Fin 1,
           b_data = [exRacer, exTrail, exShoe] \<rparr>"
    by code_simp
  have "sorted_wrt
           (\<lambda>p q. (if q_order ?rq = Some ''desc''
                    then fieldKey exEnv ''price'' q < fieldKey exEnv ''price'' p
                    else fieldKey exEnv ''price'' p < fieldKey exEnv ''price'' q)
                 \<or> (fieldKey exEnv ''price'' p = fieldKey exEnv ''price'' q
                    \<and> textScore exEnv ''Pegasus'' q \<le> textScore exEnv ''Pegasus'' p))
           (b_data \<lparr> b_count = 3, b_total = 3, b_page = Fin 1, b_pages = Fin 1,
                     b_data = [exRacer, exTrail, exShoe] \<rparr>)"
    by (rule getProducts_sort_then_relevance [where f = "''price''" and s = "''Pegasus''",
          OF _ _ _ _ _ h, THEN conjunct2]) simp_all
  then have "fieldKey exEnv ''price'' exShoe < fieldKey exEnv ''price'' exTrail
      \<and> fieldKey exEnv ''price'' exTrail = fieldKey exEnv ''price'' exRacer
      \<and> textScore exEnv ''Pegasus'' exTrail \<le> textScore exEnv ''Pegasus'' exRacer"
    by (simp add: noParams_def exEnv_def exShoe_def exTrail_def exRacer_def)
  moreover have "[p \<leftarrow> exShelf. isActive p] = [exShoe, exTrail, exRacer]"
    by (simp add: exShelf_def exShoe_def exTrail_def exRacer_def exHidden_def)
  ultimately show ?thesis using h by simp
qed

section \<open>Partial update: only the supplied fields change\<close>

text \<open>
  C7, as the code has it. An identifier with no product does not always yield a not-found
  result: the validators run on the payload before the store is asked, so a payload that
  they refuse is answered 400 although no product has the identifier.
\<close>

theorem updateProduct_refused_counterexample:
  "findById exDb 3 = None
   \<and> updateProduct exEnv exDb (Some 3) (noUpdates\<lparr> u_price := Some (- 1) \<rparr>)
       = (Failure 400 ''Error updating product'', exDb)"
proof (intro conjI)
  show "findById exDb 3 = None"
    by code_simp
  show "updateProduct exEnv exDb (Some 3) (noUpdates\<lparr> u_price := Some (- 1) \<rparr>)
       = (Failure 400 ''Error updating product'', exDb)"
    by code_simp
qed

text \<open>
  C7, amended. The validators see the payload alone, before any lookup. An identifier that
  is no ObjectId, or a payload that the validators refuse, is answered 400
  \<^verbatim>\<open>Error updating product\<close> with the collection as it was, whether or not a product
  has the identifier. A payload that they accept, on an existing product, returns and
  stores the product in which every supplied attribute has its new value and every
  attribute that the payload does not supply has its previous value, and no other product
  is touched; with no product for the identifier it is answered 404
  \<^verbatim>\<open>Product not found\<close>.
\<close>

theorem updateProduct_partial_payload:
  "updateProduct env db None u = (Failure 400 ''Error updating product'', db)
   \<and> (\<not> updateValid env u \<longrightarrow>
      updateProduct env db (Some i) u = (Failure 400 ''Error updating product'', db))
   \<and> (updateValid env u \<and> findById db i = None \<longrightarrow>
      updateProduct env db (Some i) u = (Failure 404 ''Product not found'', db))
   \<and> (\<forall>p. updateValid env u \<and> findById db i = Some p \<longrightarrow>
        (\<exists>p' db'.
           updateProduct env db (Some i) u
             = (Success 200 (Some ''Product updated successfully'') p', db')
         \<and> findById db' i = Some p'
         \<and> (\<forall>j. j \<noteq> i \<longrightarrow> findById db' j = findById db j)
         \<and> id_p p' = id_p p
         \<and> name p' = (case u_name u of None \<Rightarrow> name p | Some v \<Rightarrow> v)
         \<and> brand p' = (case u_brand u of None \<Rightarrow> brand p | Some v \<Rightarrow> v)
         \<and> category p' = (case u_category u of None \<Rightarrow> category p | Some v \<Rightarrow> v)
         \<and> gender p' = (case u_gender u of None \<Rightarrow> gender p | Some v \<Rightarrow> v)
         \<and> price p' = (case u_price u of None \<Rightarrow> price p | Some v \<Rightarrow> v)
         \<and> description p' = (case u_description u of None \<Rightarrow> description p | Some v \<Rightarrow> v)
         \<and> mainImage p' = (case u_mainImage u of None \<Rightarrow> mainImage p | Some v \<Rightarrow> v)
         \<and> isActive p' = (case u_isActive u of None \<Rightarrow> isActive p | Some v \<Rightarrow> v)
         \<and> isFeatured p' = (case u_isFeatured u of None \<Rightarrow> isFeatured p | Some v \<Rightarrow> v)
         \<and> averageRating p' = (case u_averageRating u of None \<Rightarrow> averageRating p | Some v \<Rightarrow> v)
         \<and> totalStock p' = (case u_totalStock u of None \<Rightarrow> totalStock p | Some v \<Rightarrow> v)
         \<and> createdAt p' = (case u_createdAt u of None \<Rightarrow> createdAt p | Some v \<Rightarrow> v)
         \<and> colors p' = (case u_colors u of None \<Rightarrow> colors p | Some v \<Rightarrow> v)
         \<and> reviews p' = (case u_reviews u of None \<Rightarrow> reviews p | Some v \<Rightarrow> v)))"
proof (intro conjI allI impI)
  show "updateProduct env db None u = (Failure 400 ''Error updating product'', db)"
    by (simp add: updateProduct_def)
next
  assume "\<not> updateValid env u"
  then show "updateProduct env db (Some i) u = (Failure 400 ''Error updating product'', db)"
    by (simp add: updateProduct_def)
next
  assume "updateValid env u \<and> findById db i = None"
  then show "updateProduct env db (Some i) u = (Failure 404 ''Product not found'', db)"
    by (auto simp: updateProduct_def findByIdAndUpdate_missing)
next
  fix p
  assume a: "updateValid env u \<and> findById db i = Some p"
  then have db: "findById db i = Some p" by simp
  let ?p' = "applySet u p" and ?db' = "snd (findByIdAndUpdate db i (applySet u))"
  have ret: "fst (findByIdAndUpdate db i (applySet u)) = Some ?p'"
    by (rule findByIdAndUpdate_found [OF db])
  have "id_p ?p' = i"
    using findById_Some_id [OF db] by (simp add: id_p_applySet)
  from findByIdAndUpdate_lookup [of db i p "applySet u", OF db this]
  have look: "findById ?db' i = Some ?p'" "\<forall>j. j \<noteq> i \<longrightarrow> findById ?db' j = findById db j"
    by simp_all
  have res: "updateProduct env db (Some i) u
      = (Success 200 (Some ''Product updated successfully'') ?p', ?db')"
    using a ret by (auto simp: updateProduct_def split: prod.splits)
  have fields: "id_p ?p' = id_p p
         \<and> name ?p' = (case u_name u of None \<Rightarrow> name p | Some v \<Rightarrow> v)
         \<and> brand ?p' = (case u_brand u of None \<Rightarrow> brand p | Some v \<Rightarrow> v)
         \<and> category ?p' = (case u_category u of None \<Rightarrow> category p | Some v \<Rightarrow> v)
         \<and> gender ?p' = (case u_gender u of None \<Rightarrow> gender p | Some v \<Rightarrow> v)
         \<and> price ?p' = (case u_price u of None \<Rightarrow> price p | Some v \<Rightarrow> v)
         \<and> description ?p' = (case u_description u of None \<Rightarrow> description p | Some v \<Rightarrow> v)
         \<and> mainImage ?p' = (case u_mainImage u of None \<Rightarrow> mainImage p | Some v \<Rightarrow> v)
         \<and> isActive ?p' = (case u_isActive u of None \<Rightarrow> isActive p | Some v \<Rightarrow> v)
         \<and> isFeatured ?p' = (case u_isFeatured u of None \<Rightarrow> isFeatured p | Some v \<Rightarrow> v)
         \<and> averageRating ?p' = (case u_averageRating u of None \<Rightarrow> averageRating p | Some v \<Rightarrow> v)
         \<and> totalStock ?p' = (case u_totalStock u of None \<Rightarrow> totalStock p | Some v \<Rightarrow> v)
         \<and> createdAt ?p' = (case u_createdAt u of None \<Rightarrow> createdAt p | Some v \<Rightarrow> v)
         \<and> colors ?p' = (case u_colors u of None \<Rightarrow> colors p | Some v \<Rightarrow> v)
         \<and> reviews ?p' = (case u_reviews u of None \<Rightarrow> reviews p | Some v \<Rightarrow> v)"
    by (simp add: applySet_def orElse_def)
  from res look fields
  show "\<exists>p' db'.
           updateProduct env db (Some i) u
             = (Success 200 (Some ''Product updated successfully'') p', db')
         \<and> findById db' i = Some p'
         \<and> (\<forall>j. j \<noteq> i \<longrightarrow> findById db' j = findById db j)
         \<and> id_p p' = id_p p
         \<and> name p' = (case u_name u of None \<Rightarrow> name p | Some v \<Rightarrow> v)
         \<and> brand p' = (case u_brand u of None \<Rightarrow> brand p | Some v \<Rightarrow> v)
         \<and> category p' = (case u_category u of None \<Rightarrow> category p | Some v \<Rightarrow> v)
         \<and> gender p' = (case u_gender u of None \<Rightarrow> gender p | Some v \<Rightarrow> v)
         \<and> price p' = (case u_price u of None \<Rightarrow> price p | Some v \<Rightarrow> v)
         \<and> description p' = (case u_description u of None \<Rightarrow> description p | Some v \<Rightarrow> v)
         \<and> mainImage p' = (case u_mainImage u of None \<Rightarrow> mainImage p | Some v \<Rightarrow> v)
         \<and> isActive p' = (case u_isActive u of None \<Rightarrow> isActive p | Some v \<Rightarrow> v)
         \<and> isFeatured p' = (case u_isFeatured u of None \<Rightarrow> isFeatured p | Some v \<Rightarrow> v)
         \<and> averageRating p' = (case u_averageRating u of None \<Rightarrow> averageRating p | Some v \<Rightarrow> v)
         \<and> totalStock p' = (case u_totalStock u of None \<Rightarrow> totalStock p | Some v \<Rightarrow> v)
         \<and> createdAt p' = (case u_createdAt u of None \<Rightarrow> createdAt p | Some v \<Rightarrow> v)
         \<and> colors p' = (case u_colors u of None \<Rightarrow> colors p | Some v \<Rightarrow> v)
         \<and> reviews p' = (case u_reviews u of None \<Rightarrow> reviews p | Some v \<Rightarrow> v)"
    by (intro exI [of _ ?p'] exI [of _ ?db']) (simp only: simp_thms)
qed

theorem updateProduct_partial_payload_witness:
  "updateProduct exEnv exDb (Some 3) (noUpdates\<lparr> u_price := Some 90 \<rparr>)
     = (Failure 404 ''Product not found'', exDb)
   \<and> updateProduct exEnv exDb (Some 1) (noUpdates\<lparr> u_price := Some (- 1) \<rparr>)
     = (Failure 400 ''Error updating product'', exDb)
   \<and> (\<exists>p' db'. updateProduct exEnv exDb (Some 1) (noUpdates\<lparr> u_price := Some 90 \<rparr>)
          = (Success 200 (Some ''Product updated successfully'') p', db')
        \<and> price p' = 90 \<and> name p' = ''Pegasus'' \<and> colors p' = colors exShoe
        \<and> findById db' 2 = findById exDb 2)"
proof -
  have h: "findById exDb 1 = Some exShoe" and h3: "findById exDb 3 = None"
    by (simp_all add: exDb_def exShoe_def exHidden_def)
  have v: "updateValid exEnv (noUpdates\<lparr> u_price := Some 90 \<rparr>)"
    by (simp add: exEnv_def noUpdates_def)
  have nv: "\<not> updateValid exEnv (noUpdates\<lparr> u_price := Some (- 1) \<rparr>)"
    by (simp add: exEnv_def noUpdates_def)
  have missing: "updateProduct exEnv exDb (Some 3) (noUpdates\<lparr> u_price := Some 90 \<rparr>)
     = (Failure 404 ''Product not found'', exDb)"
    using updateProduct_partial_payload [of exEnv exDb "noUpdates\<lparr> u_price := Some 90 \<rparr>" 3] v h3
    by blast
  have refused: "updateProduct exEnv exDb (Some 1) (noUpdates\<lparr> u_price := Some (- 1) \<rparr>)
     = (Failure 400 ''Error updating product'', exDb)"
    using updateProduct_partial_payload [of exEnv exDb "noUpdates\<lparr> u_price := Some (- 1) \<rparr>" 1] nv
    by blast
  from updateProduct_partial_payload [of exEnv exDb "noUpdates\<lparr> u_price := Some 90 \<rparr>" 1,
      THEN conjunct2, THEN conjunct2, THEN conjunct2, rule_format, of exShoe] v h
  obtain p' db' where
    "updateProduct exEnv exDb (Some 1) (noUpdates\<lparr> u_price := Some 90 \<rparr>)
          = (Success 200 (Some ''Product updated successfully'') p', db')"
    and "\<forall>j. j \<noteq> 1 \<longrightarrow> findById db' j = findById exDb j"
    and "price p' = (case u_price (noUpdates\<lparr> u_price := Some 90 \<rparr>) of None \<Rightarrow> price exShoe | Some v \<Rightarrow> v)"
    and "name p' = (case u_name (noUpdates\<lparr> u_price := Some 90 \<rparr>) of None \<Rightarrow> name exShoe | Some v \<Rightarrow> v)"
    and "colors p' = (case u_colors (noUpdates\<lparr> u_price := Some 90 \<rparr>) of None \<Rightarrow> colors exShoe | Some v \<Rightarrow> v)"
    by blast
  then have "updateProduct exEnv exDb (Some 1) (noUpdates\<lparr> u_price := Some 90 \<rparr>)
          = (Success 200 (Some ''Product updated successfully'') p', db')
        \<and> price p' = 90 \<and> name p' = ''Pegasus'' \<and> colors p' = colors exShoe
        \<and> findById db' 2 = findById exDb 2"
    by (simp add: noUpdates_def exShoe_def)
  with missing refused show ?thesis by blast
qed

section \<open>Stock adjustment: targeted errors and the increment\<close>

text \<open>
  C2, as the code has it. The store adds the quantity to the stock as doubles, so the new
  stock is not always the old value plus the quantity: a stock of 10 adjusted by
  9007199254740991 becomes 9007199254741000, not 9007199254741001.
\<close>

theorem updateStock_sum_counterexample:
  "fst (updateStock exDb (Some 1)
          \<lparr> colorName = ''Red'', size_b = ''9'', quantity = Fin 9007199254740991 \<rparr>)
     = Success 200 (Some ''Stock updated successfully'')
         (Some (exShoe\<lparr> colors := [\<lparr> name_c = ''Red'', hexCode = ''#ff0000'',
                  sizes = [\<lparr> size_s = ''8'', stock = Fin 4 \<rparr>,
                           \<lparr> size_s = ''9'', stock = Fin 9007199254741000 \<rparr>] \<rparr>] \<rparr>))
   \<and> Fin 9007199254741000 \<noteq> Fin (10 + 9007199254740991)"
proof (intro conjI)
  show "fst (updateStock exDb (Some 1)
          \<lparr> colorName = ''Red'', size_b = ''9'', quantity = Fin 9007199254740991 \<rparr>)
     = Success 200 (Some ''Stock updated successfully'')
         (Some (exShoe\<lparr> colors := [\<lparr> name_c = ''Red'', hexCode = ''#ff0000'',
                  sizes = [\<lparr> size_s = ''8'', stock = Fin 4 \<rparr>,
                           \<lparr> size_s = ''9'', stock = Fin 9007199254741000 \<rparr>] \<rparr>] \<rparr>))"
    by code_simp
  show "Fin 9007199254741000 \<noteq> Fin (10 + 9007199254740991)"
    by simp
qed

text \<open>
  C2, amended. For a product that exists: a color name that none of its colors has is
  answered 404 \<^verbatim>\<open>Color not found\<close>, and a size label that none of the sizes of the first
  color of that name has is answered 404 \<^verbatim>\<open>Size not found\<close>, both with the collection
  as it was. When both are present, a quantity that is no number is answered 400
  \<^verbatim>\<open>Error updating stock\<close>, again with the collection as it was; otherwise the stock of
  the first size of that label becomes the sum of the old value and the quantity as
  doubles (no lower bound), and nothing else changes; that sum is the old value plus the
  quantity whenever both are integers and the magnitude of their sum is at most \<open>2^53\<close>.
\<close>

theorem updateStock_targets_rounded:
  assumes db: "findById db i = Some p"
  shows "(colorName b \<notin> set (map name_c (colors p)) \<longrightarrow>
            updateStock db (Some i) b = (Failure 404 ''Color not found'', db))
       \<and> (\<forall>cs c cs'.
            colors p = cs @ c # cs' \<and> colorName b \<notin> set (map name_c cs) \<and> name_c c = colorName b \<longrightarrow>
              (size_b b \<notin> set (map size_s (sizes c)) \<longrightarrow>
                 updateStock db (Some i) b = (Failure 404 ''Size not found'', db))
            \<and> (\<forall>ss s ss'.
                 sizes c = ss @ s # ss' \<and> size_b b \<notin> set (map size_s ss) \<and> size_s s = size_b b \<longrightarrow>
                   (quantity b = NaN \<longrightarrow>
                      updateStock db (Some i) b = (Failure 400 ''Error updating stock'', db))
                   \<and> (quantity b \<noteq> NaN \<longrightarrow>
                      (\<exists>db'. updateStock db (Some i) b
                            = (Success 200 (Some ''Stock updated successfully'')
                                 (Some (p\<lparr> colors := cs @ c\<lparr> sizes := ss @ s\<lparr> stock := jsAdd (stock s) (quantity b) \<rparr> # ss' \<rparr> # cs' \<rparr>)),
                               db')
                       \<and> findById db' i
                           = Some (p\<lparr> colors := cs @ c\<lparr> sizes := ss @ s\<lparr> stock := jsAdd (stock s) (quantity b) \<rparr> # ss' \<rparr> # cs' \<rparr>)
                       \<and> (\<forall>j. j \<noteq> i \<longrightarrow> findById db' j = findById db j)))
                   \<and> (\<forall>a d. stock s = Fin (of_int a) \<and> quantity b = Fin (of_int d)
                              \<and> \<bar>a + d\<bar> \<le> 2 ^ 53 \<longrightarrow>
                          jsAdd (stock s) (quantity b) = Fin (of_int (a + d)))))"
proof (intro conjI allI impI)
  assume "colorName b \<notin> set (map name_c (colors p))"
  then have "findIndex (\<lambda>c. name_c c = colorName b) (colors p) = None"
    by (force simp: findIndex_None_iff)
  then show "updateStock db (Some i) b = (Failure 404 ''Color not found'', db)"
    by (simp add: updateStock_def db)
next
  fix cs c cs'
  assume cs: "colors p = cs @ c # cs' \<and> colorName b \<notin> set (map name_c cs) \<and> name_c c = colorName b"
    and "size_b b \<notin> set (map size_s (sizes c))"
  then have "findIndex (\<lambda>s. size_s s = size_b b) (sizes c) = None"
    by (force simp: findIndex_None_iff)
  moreover have "findIndex (\<lambda>c. name_c c = colorName b) (colors p) = Some (length cs)"
    using cs by (force intro!: findIndex_first)
  moreover have "colors p ! length cs = c"
    using cs by simp
  ultimately show "updateStock db (Some i) b = (Failure 404 ''Size not found'', db)"
    by (simp add: updateStock_def db)
next
  fix cs c cs' ss s ss'
  assume cs: "colors p = cs @ c # cs' \<and> colorName b \<notin> set (map name_c cs) \<and> name_c c = colorName b"
    and ss: "sizes c = ss @ s # ss' \<and> size_b b \<notin> set (map size_s ss) \<and> size_s s = size_b b"
    and q: "quantity b = NaN"
  have "findIndex (\<lambda>c. name_c c = colorName b) (colors p) = Some (length cs)"
    using cs by (force intro!: findIndex_first)
  moreover have "colors p ! length cs = c"
    using cs by simp
  moreover have "findIndex (\<lambda>s. size_s s = size_b b) (sizes c) = Some (length ss)"
    using ss by (force intro!: findIndex_first)
  ultimately show "updateStock db (Some i) b = (Failure 400 ''Error updating stock'', db)"
    using q by (simp add: updateStock_def db)
next
  fix cs c cs' ss s ss'
  assume cs: "colors p = cs @ c # cs' \<and> colorName b \<notin> set (map name_c cs) \<and> name_c c = colorName b"
    and ss: "sizes c = ss @ s # ss' \<and> size_b b \<notin> set (map size_s ss) \<and> size_s s = size_b b"
    and q: "quantity b \<noteq> NaN"
  let ?g = "incStock (length cs) (length ss) (quantity b)"
  let ?p' = "p\<lparr> colors := cs @ c\<lparr> sizes := ss @ s\<lparr> stock := jsAdd (stock s) (quantity b) \<rparr> # ss' \<rparr> # cs' \<rparr>"
  have g: "?g p = ?p'"
    using cs ss by (simp add: incStock_hit)
  have upd: "updateStock db (Some i) b
      = (Success 200 (Some ''Stock updated successfully'') (Some ?p'), snd (findByIdAndUpdate db i ?g))"
    using updateStock_hit [OF db, of cs c cs' b ss s ss'] cs ss q g by simp
  have "id_p (?g p) = i"
    using findById_Some_id [OF db] by (simp add: id_p_incStock)
  from findByIdAndUpdate_lookup [of db i p ?g, OF db this]
  have "findById (snd (findByIdAndUpdate db i ?g)) i = Some ?p'"
    and "\<forall>j. j \<noteq> i \<longrightarrow> findById (snd (findByIdAndUpdate db i ?g)) j = findById db j"
    using g by simp_all
  with upd show "\<exists>db'. updateStock db (Some i) b
                            = (Success 200 (Some ''Stock updated successfully'') (Some ?p'), db')
                       \<and> findById db' i = Some ?p'
                       \<and> (\<forall>j. j \<noteq> i \<longrightarrow> findById db' j = findById db j)"
    by blast
next
  fix cs c cs' ss s ss' a d
  assume "stock s = Fin (of_int a) \<and> quantity b = Fin (of_int d) \<and> \<bar>a + d\<bar> \<le> 2 ^ 53"
  then show "jsAdd (stock s) (quantity b) = Fin (of_int (a + d))"
    by (simp only: jsAdd_int_exact)
qed

theorem updateStock_targets_rounded_witness:
  "updateStock exDb (Some 1) \<lparr> colorName = ''Blue'', size_b = ''9'', quantity = Fin (- 3) \<rparr>
     = (Failure 404 ''Color not found'', exDb)
   \<and> updateStock exDb (Some 1) \<lparr> colorName = ''Red'', size_b = ''11'', quantity = Fin (- 3) \<rparr>
     = (Failure 404 ''Size not found'', exDb)
   \<and> (\<exists>db'. updateStock exDb (Some 1) \<lparr> colorName = ''Red'', size_b = ''9'', quantity = Fin (- 3) \<rparr>
         = (Success 200 (Some ''Stock updated successfully'')
              (Some (exShoe\<lparr> colors := [\<lparr> name_c = ''Red'', hexCode = ''#ff0000'',
                  sizes = [\<lparr> size_s = ''8'', stock = Fin 4 \<rparr>, \<lparr> size_s = ''9'', stock = Fin 7 \<rparr>] \<rparr>] \<rparr>)),
            db')
       \<and> findById db' 2 = findById exDb 2)"
proof -
  let ?red = "\<lparr> name_c = ''Red'', hexCode = ''#ff0000'',
                 sizes = [\<lparr> size_s = ''8'', stock = Fin 4 \<rparr>, \<lparr> size_s = ''9'', stock = Fin 10 \<rparr>] \<rparr>"
  let ?b = "\<lparr> colorName = ''Red'', size_b = ''9'', quantity = Fin (- 3) \<rparr>"
  let ?s = "\<lparr> size_s = ''9'', stock = Fin 10 \<rparr>"
  have h: "findById exDb 1 = Some exShoe"
    by (simp add: exDb_def exShoe_def)
  have cols: "colors exShoe = [] @ ?red # []"
    by (simp add: exShoe_def)
  have blue: "updateStock exDb (Some 1) \<lparr> colorName = ''Blue'', size_b = ''9'', quantity = Fin (- 3) \<rparr>
     = (Failure 404 ''Color not found'', exDb)"
    using updateStock_targets_rounded [OF h, of "\<lparr> colorName = ''Blue'', size_b = ''9'', quantity = Fin (- 3) \<rparr>"]
    by (simp add: exShoe_def)
  have eleven: "updateStock exDb (Some 1) \<lparr> colorName = ''Red'', size_b = ''11'', quantity = Fin (- 3) \<rparr>
     = (Failure 404 ''Size not found'', exDb)"
    using updateStock_targets_rounded [OF h, of "\<lparr> colorName = ''Red'', size_b = ''11'', quantity = Fin (- 3) \<rparr>"] cols
    by fastforce
  note hit = updateStock_targets_rounded [OF h, of ?b,
        THEN conjunct2, rule_format, of "[]" ?red "[]", THEN conjunct2, rule_format,
        of "[\<lparr> size_s = ''8'', stock = Fin 4 \<rparr>]" ?s "[]"]
  have pre: "sizes ?red = [\<lparr> size_s = ''8'', stock = Fin 4 \<rparr>] @ ?s # []
      \<and> size_b ?b \<notin> set (map size_s [\<lparr> size_s = ''8'', stock = Fin 4 \<rparr>]) \<and> size_s ?s = size_b ?b"
    by simp
  have qn: "quantity ?b \<noteq> NaN"
    by simp
  have pre0: "colors exShoe = [] @ ?red # [] \<and> colorName ?b \<notin> set (map name_c []) \<and> name_c ?red = colorName ?b"
    using cols by simp
  have sum: "jsAdd (stock ?s) (quantity ?b) = Fin (of_int (10 + - 3))"
    using hit [OF pre0 pre, THEN conjunct2, THEN conjunct2, rule_format, of 10 "- 3"] by simp
  from hit [OF pre0 pre, THEN conjunct2, THEN conjunct1, rule_format, OF qn] obtain db' where
    "updateStock exDb (Some 1) ?b
         = (Success 200 (Some ''Stock updated successfully'')
              (Some (exShoe\<lparr> colors := [] @ ?red\<lparr> sizes := [\<lparr> size_s = ''8'', stock = Fin 4 \<rparr>]
                   @ ?s\<lparr> stock := jsAdd (stock ?s) (quantity ?b) \<rparr> # [] \<rparr> # [] \<rparr>)),
            db')"
    and "\<forall>j. j \<noteq> 1 \<longrightarrow> findById db' j = findById exDb j"
    by blast
  then have "updateStock exDb (Some 1) ?b
         = (Success 200 (Some ''Stock updated successfully'')
              (Some (exShoe\<lparr> colors := [\<lparr> name_c = ''Red'', hexCode = ''#ff0000'',
                  sizes = [\<lparr> size_s = ''8'', stock = Fin 4 \<rparr>, \<lparr> size_s = ''9'', stock = Fin 7 \<rparr>] \<rparr>] \<rparr>)),
            db')"
    and "findById db' 2 = findById exDb 2"
    unfolding sum by simp_all
  with blue eleven show ?thesis by blast
qed

section \<open>Stock adjustment: two deltas commute\<close>

text \<open>
  C6, as the code has it. The sums are sums of doubles, and rounding depends on the order:
  from a stock of 10, adding 9007199254740991 and then taking it away again leaves 9,
  and taking it away first and then adding it leaves 10.
\<close>

theorem updateStock_order_counterexample:
  "findById
     (snd (updateStock
             (snd (updateStock exDb (Some 1)
                     \<lparr> colorName = ''Red'', size_b = ''9'', quantity = Fin 9007199254740991 \<rparr>))
             (Some 1) \<lparr> colorName = ''Red'', size_b = ''9'', quantity = Fin (- 9007199254740991) \<rparr>)) 1
     = Some (exShoe\<lparr> colors := [\<lparr> name_c = ''Red'', hexCode = ''#ff0000'',
               sizes = [\<lparr> size_s = ''8'', stock = Fin 4 \<rparr>, \<lparr> size_s = ''9'', stock = Fin 9 \<rparr>] \<rparr>] \<rparr>)
   \<and> findById
     (snd (updateStock
             (snd (updateStock exDb (Some 1)
                     \<lparr> colorName = ''Red'', size_b = ''9'', quantity = Fin (- 9007199254740991) \<rparr>))
             (Some 1) \<lparr> colorName = ''Red'', size_b = ''9'', quantity = Fin 9007199254740991 \<rparr>)) 1
     = Some (exShoe\<lparr> colors := [\<lparr> name_c = ''Red'', hexCode = ''#ff0000'',
               sizes = [\<lparr> size_s = ''8'', stock = Fin 4 \<rparr>, \<lparr> size_s = ''9'', stock = Fin 10 \<rparr>] \<rparr>] \<rparr>)"
proof (intro conjI)
  show "findById
     (snd (updateStock
             (snd (updateStock exDb (Some 1)
                     \<lparr> colorName = ''Red'', size_b = ''9'', quantity = Fin 9007199254740991 \<rparr>))
             (Some 1) \<lparr> colorName = ''Red'', size_b = ''9'', quantity = Fin (- 9007199254740991) \<rparr>)) 1
     = Some (exShoe\<lparr> colors := [\<lparr> name_c = ''Red'', hexCode = ''#ff0000'',
               sizes = [\<lparr> size_s = ''8'', stock = Fin 4 \<rparr>, \<lparr> size_s = ''9'', stock = Fin 9 \<rparr>] \<rparr>] \<rparr>)"
    by code_simp
  show "findById
     (snd (updateStock
             (snd (updateStock exDb (Some 1)
                     \<lparr> colorName = ''Red'', size_b = ''9'', quantity = Fin (- 9007199254740991) \<rparr>))
             (Some 1) \<lparr> colorName = ''Red'', size_b = ''9'', quantity = Fin 9007199254740991 \<rparr>)) 1
     = Some (exShoe\<lparr> colors := [\<lparr> name_c = ''Red'', hexCode = ''#ff0000'',
               sizes = [\<lparr> size_s = ''8'', stock = Fin 4 \<rparr>, \<lparr> size_s = ''9'', stock = Fin 10 \<rparr>] \<rparr>] \<rparr>)"
    by code_simp
qed

text \<open>
  C6, amended. On an existing color and size of a product whose stock is an integer,
  adjusting by an integer \<open>d1\<close> and then by an integer \<open>d2\<close> leaves the same collection
  as adjusting by \<open>d2\<close> and then by \<open>d1\<close>, with the original stock plus \<open>d1\<close> plus
  \<open>d2\<close> as the stock of that size, provided that the stock after either first adjustment
  and the final stock are at most \<open>2^53\<close> in magnitude.
\<close>

theorem updateStock_commutes_exact:
  assumes db: "findById db i = Some p"
    and cs: "colors p = cs @ c # cs'" "cn \<notin> set (map name_c cs)" "name_c c = cn"
    and ss: "sizes c = ss @ s # ss'" "sz \<notin> set (map size_s ss)" "size_s s = sz"
    and st: "stock s = Fin (of_int a)"
    and safe: "\<bar>a + d1\<bar> \<le> 2 ^ 53" "\<bar>a + d2\<bar> \<le> 2 ^ 53" "\<bar>a + d1 + d2\<bar> \<le> 2 ^ 53"
  shows "snd (updateStock
                (snd (updateStock db (Some i)
                        \<lparr> colorName = cn, size_b = sz, quantity = Fin (of_int d1) \<rparr>))
                (Some i) \<lparr> colorName = cn, size_b = sz, quantity = Fin (of_int d2) \<rparr>)
         = snd (updateStock
                (snd (updateStock db (Some i)
                        \<lparr> colorName = cn, size_b = sz, quantity = Fin (of_int d2) \<rparr>))
                (Some i) \<lparr> colorName = cn, size_b = sz, quantity = Fin (of_int d1) \<rparr>)
       \<and> findById
           (snd (updateStock
                (snd (updateStock db (Some i)
                        \<lparr> colorName = cn, size_b = sz, quantity = Fin (of_int d1) \<rparr>))
                (Some i) \<lparr> colorName = cn, size_b = sz, quantity = Fin (of_int d2) \<rparr>)) i
         = Some (p\<lparr> colors := cs @ c\<lparr> sizes := ss @ s\<lparr> stock := Fin (of_int (a + d1 + d2)) \<rparr> # ss' \<rparr>
                              # cs' \<rparr>)"
proof -
  let ?at = "\<lambda>v. p\<lparr> colors := cs @ c\<lparr> sizes := ss @ s\<lparr> stock := v \<rparr> # ss' \<rparr> # cs' \<rparr>"
  have i: "id_p p = i"
    by (rule findById_Some_id [OF db])
  have n: "Fin (of_int d1) \<noteq> NaN" "Fin (of_int d2) \<noteq> NaN"
    by simp_all
  have s12: "jsAdd (jsAdd (stock s) (Fin (of_int d1))) (Fin (of_int d2)) = Fin (of_int (a + d1 + d2))"
    unfolding st using safe(1,3) by (rule jsAdd_int_twice)
  have "\<bar>a + d2 + d1\<bar> \<le> 2 ^ 53"
    using safe(3) by (simp add: add.commute add.left_commute)
  with safe(2)
  have "jsAdd (jsAdd (stock s) (Fin (of_int d2))) (Fin (of_int d1)) = Fin (of_int (a + d2 + d1))"
    unfolding st by (rule jsAdd_int_twice)
  moreover have "a + d2 + d1 = a + d1 + d2" by simp
  ultimately
  have s21: "jsAdd (jsAdd (stock s) (Fin (of_int d2))) (Fin (of_int d1)) = Fin (of_int (a + d1 + d2))"
    by (simp only:)
  note b12 = updateStock_both [OF db cs ss n(1) n(2), unfolded s12]
  note b21 = updateStock_both [OF db cs ss n(2) n(1), unfolded s21]
  have "findById (snd (findByIdAndUpdate db i (\<lambda>x. ?at (Fin (of_int (a + d1 + d2)))))) i
      = Some (?at (Fin (of_int (a + d1 + d2))))"
    using findByIdAndUpdate_lookup [of db i p "\<lambda>x. ?at (Fin (of_int (a + d1 + d2)))" i] db i by simp
  then show ?thesis
    using b12 b21 by (simp only:)
qed

theorem updateStock_commutes_exact_witness:
  "snd (updateStock (snd (updateStock exDb (Some 1) \<lparr> colorName = ''Red'', size_b = ''9'', quantity = Fin (- 3) \<rparr>))
          (Some 1) \<lparr> colorName = ''Red'', size_b = ''9'', quantity = Fin 5 \<rparr>)
     = snd (updateStock (snd (updateStock exDb (Some 1) \<lparr> colorName = ''Red'', size_b = ''9'', quantity = Fin 5 \<rparr>))
          (Some 1) \<lparr> colorName = ''Red'', size_b = ''9'', quantity = Fin (- 3) \<rparr>)
   \<and> findById
        (snd (updateStock (snd (updateStock exDb (Some 1) \<lparr> colorName = ''Red'', size_b = ''9'', quantity = Fin (- 3) \<rparr>))
          (Some 1) \<lparr> colorName = ''Red'', size_b = ''9'', quantity = Fin 5 \<rparr>)) 1
     = Some (exShoe\<lparr> colors := [\<lparr> name_c = ''Red'', hexCode = ''#ff0000'',
               sizes = [\<lparr> size_s = ''8'', stock = Fin 4 \<rparr>, \<lparr> size_s = ''9'', stock = Fin 12 \<rparr>] \<rparr>] \<rparr>)"
proof -
  let ?red = "\<lparr> name_c = ''Red'', hexCode = ''#ff0000'',
                 sizes = [\<lparr> size_s = ''8'', stock = Fin 4 \<rparr>, \<lparr> size_s = ''9'', stock = Fin 10 \<rparr>] \<rparr>"
  have h: "findById exDb 1 = Some exShoe"
    by (simp add: exDb_def exShoe_def)
  have cols: "colors exShoe = [] @ ?red # []"
    by (simp add: exShoe_def)
  have szs: "sizes ?red = [\<lparr> size_s = ''8'', stock = Fin 4 \<rparr>] @ \<lparr> size_s = ''9'', stock = Fin 10 \<rparr> # []"
    by simp
  have c1: "''Red'' \<notin> set (map name_c [])" and c2: "name_c ?red = ''Red''"
    by simp_all
  have s1: "''9'' \<notin> set (map size_s [\<lparr> size_s = ''8'', stock = Fin 4 \<rparr>])"
    and s2: "size_s \<lparr> size_s = ''9'', stock = Fin 10 \<rparr> = ''9''"
    by simp_all
  have st: "stock \<lparr> size_s = ''9'', stock = Fin 10 \<rparr> = Fin (of_int 10)"
    by simp
  have safe: "\<bar>10 + (- 3 :: int)\<bar> \<le> 2 ^ 53" "\<bar>10 + (5 :: int)\<bar> \<le> 2 ^ 53"
    "\<bar>10 + (- 3) + (5 :: int)\<bar> \<le> 2 ^ 53"
    by simp_all
  have fin: "exShoe\<lparr> colors := [] @ ?red\<lparr> sizes := [\<lparr> size_s = ''8'', stock = Fin 4 \<rparr>]
            @ \<lparr> size_s = ''9'', stock = Fin 10 \<rparr>\<lparr> stock := Fin (of_int (10 + - 3 + 5)) \<rparr> # [] \<rparr> # [] \<rparr>
      = exShoe\<lparr> colors := [\<lparr> name_c = ''Red'', hexCode = ''#ff0000'',
               sizes = [\<lparr> size_s = ''8'', stock = Fin 4 \<rparr>, \<lparr> size_s = ''9'', stock = Fin 12 \<rparr>] \<rparr>] \<rparr>"
    by simp
  have q: "Fin (of_int (- 3)) = Fin (- 3)" "Fin (of_int 5) = Fin 5"
    by simp_all
  from updateStock_commutes_exact [OF h cols c1 c2 szs s1 s2 st safe, unfolded fin q]
  show ?thesis .
qed

section \<open>Review append: one review per user\<close>

text \<open>
  C3, as the code has it. A submission by a user with no review on the product is not
  always appended: a rating of 0 is refused by the guard on the body, and a rating that
  is no number is refused by the cast of the push, both with status 400 and the
  collection as it was.
\<close>

theorem addReview_new_user_refused_counterexample:
  "findById exDb 1 = Some exShoe
   \<and> uid \<lparr> uid = 8, uname = ''bob'' \<rparr> \<notin> set (map user (reviews exShoe))
   \<and> addReview exEnv exDb 50 \<lparr> uid = 8, uname = ''bob'' \<rparr> (Some 1)
         \<lparr> rating_b = Num (Fin 0), comment_b = Str ''fine'' \<rparr>
       = (Failure 400 ''Please provide rating and comment'', exDb)
   \<and> addReview exEnv exDb 50 \<lparr> uid = 8, uname = ''bob'' \<rparr> (Some 1)
         \<lparr> rating_b = Str ''abc'', comment_b = Str ''fine'' \<rparr>
       = (Failure 400 ''Error adding review'', exDb)"
proof (intro conjI)
  show "findById exDb 1 = Some exShoe"
    by code_simp
  show "uid \<lparr> uid = 8, uname = ''bob'' \<rparr> \<notin> set (map user (reviews exShoe))"
    by (simp add: exShoe_def)
  show "addReview exEnv exDb 50 \<lparr> uid = 8, uname = ''bob'' \<rparr> (Some 1)
         \<lparr> rating_b = Num (Fin 0), comment_b = Str ''fine'' \<rparr>
       = (Failure 400 ''Please provide rating and comment'', exDb)"
    by code_simp
  show "addReview exEnv exDb 50 \<lparr> uid = 8, uname = ''bob'' \<rparr> (Some 1)
         \<lparr> rating_b = Str ''abc'', comment_b = Str ''fine'' \<rparr>
       = (Failure 400 ''Error adding review'', exDb)"
    by code_simp
qed

text \<open>
  C3, amended. On an existing product, a submission by a user who already has a review on
  it is rejected with status 400 and the sequence of reviews, like the whole collection,
  is unchanged (the message is that of the conflict once rating and comment pass the
  guard). A submission by a user without a review appends exactly one review, and answers
  201, when rating and comment pass the guard on the body and the pushed element passes
  the cast and the validators of the schema: the review has the user's identity and
  display name, the number that the given rating converts to, the given comment as a
  string and the server's time, and no other product is touched. Every other submission
  by such a user is rejected with status 400 and the collection is unchanged.
\<close>

theorem addReview_one_per_user_checked:
  assumes db: "findById db i = Some p"
  shows "(uid usr \<in> set (map user (reviews p)) \<longrightarrow>
            addReview env db now usr (Some i) b
              = (Failure 400
                   (if truthy (rating_b b) \<and> truthy (comment_b b)
                    then ''You have already reviewed this product''
                    else ''Please provide rating and comment''), db))
       \<and> (\<forall>r. uid usr \<notin> set (map user (reviews p)) \<and> truthy (rating_b b) \<and> truthy (comment_b b)
               \<and> checkedReview env (reviewDraft usr now b) = Some r \<longrightarrow>
             (\<exists>db'. addReview env db now usr (Some i) b
                      = (Success 201 (Some ''Review added successfully'')
                           (Some (p\<lparr> reviews := reviews p @ [r] \<rparr>)), db')
                  \<and> findById db' i = Some (p\<lparr> reviews := reviews p @ [r] \<rparr>)
                  \<and> (\<forall>j. j \<noteq> i \<longrightarrow> findById db' j = findById db j))
             \<and> user r = uid usr \<and> userName r = uname usr \<and> rating r = Number (rating_b b)
             \<and> castString env (comment_b b) = Some (comment r) \<and> createdAt_r r = now)
       \<and> (uid usr \<notin> set (map user (reviews p))
            \<and> (\<not> truthy (rating_b b) \<or> \<not> truthy (comment_b b)
                \<or> checkedReview env (reviewDraft usr now b) = None) \<longrightarrow>
             (\<exists>msg. addReview env db now usr (Some i) b = (Failure 400 msg, db)))"
proof (intro conjI allI impI)
  assume "uid usr \<in> set (map user (reviews p))"
  then have "List.find (\<lambda>r. user r = uid usr) (reviews p) \<noteq> None"
    by (simp add: find_user_None)
  then show "addReview env db now usr (Some i) b
              = (Failure 400
                   (if truthy (rating_b b) \<and> truthy (comment_b b)
                    then ''You have already reviewed this product''
                    else ''Please provide rating and comment''), db)"
    by (auto simp: addReview_def db)
next
  fix r
  assume a: "uid usr \<notin> set (map user (reviews p)) \<and> truthy (rating_b b) \<and> truthy (comment_b b)
               \<and> checkedReview env (reviewDraft usr now b) = Some r"
  let ?g = "\<lambda>p. p\<lparr> reviews := reviews p @ [r] \<rparr>"
  from a have none: "List.find (\<lambda>r. user r = uid usr) (reviews p) = None"
    by (simp add: find_user_None)
  from a have push: "pushReview env db i (reviewDraft usr now b) = Inr (findByIdAndUpdate db i ?g)"
    by (simp add: pushReview_Some)
  note look = push_lookup [OF db, of r]
  have "addReview env db now usr (Some i) b
      = (Success 201 (Some ''Review added successfully'') (Some (?g p)),
         snd (findByIdAndUpdate db i ?g))"
    using a look(1) by (auto simp: addReview_def db none push split: prod.splits)
  moreover have "findById (snd (findByIdAndUpdate db i ?g)) i = Some (?g p)"
    by (simp add: look(2))
  moreover have "\<forall>j. j \<noteq> i \<longrightarrow> findById (snd (findByIdAndUpdate db i ?g)) j = findById db j"
    by (simp add: look(2))
  ultimately show "\<exists>db'. addReview env db now usr (Some i) b
                      = (Success 201 (Some ''Review added successfully'')
                           (Some (p\<lparr> reviews := reviews p @ [r] \<rparr>)), db')
                  \<and> findById db' i = Some (p\<lparr> reviews := reviews p @ [r] \<rparr>)
                  \<and> (\<forall>j. j \<noteq> i \<longrightarrow> findById db' j = findById db j)"
    by blast
  from a have c: "checkedReview env (reviewDraft usr now b) = Some r"
    by simp
  from checkedReview_Some [OF c]
  show "user r = uid usr" and "userName r = uname usr" and "rating r = Number (rating_b b)"
    and "castString env (comment_b b) = Some (comment r)" and "createdAt_r r = now"
    by (simp_all add: reviewDraft_def)
next
  assume a: "uid usr \<notin> set (map user (reviews p))
            \<and> (\<not> truthy (rating_b b) \<or> \<not> truthy (comment_b b)
                \<or> checkedReview env (reviewDraft usr now b) = None)"
  then have none: "List.find (\<lambda>r. user r = uid usr) (reviews p) = None"
    by (simp add: find_user_None)
  show "\<exists>msg. addReview env db now usr (Some i) b = (Failure 400 msg, db)"
  proof (cases "truthy (rating_b b) \<and> truthy (comment_b b)")
    case False
    then show ?thesis by (auto simp: addReview_def)
  next
    case True
    with a have "checkedReview env (reviewDraft usr now b) = None" by blast
    from pushReview_None [OF this, of db i] obtain e where
      "pushReview env db i (reviewDraft usr now b) = Inl e" ..
    with True show ?thesis by (simp add: addReview_def db none)
  qed
qed

theorem addReview_one_per_user_checked_witness:
  "addReview exEnv exDb 50 \<lparr> uid = 7, uname = ''ann'' \<rparr> (Some 1)
       \<lparr> rating_b = Num (Fin 4), comment_b = Str ''again'' \<rparr>
     = (Failure 400 ''You have already reviewed this product'', exDb)
   \<and> (\<exists>db'. addReview exEnv exDb 50 \<lparr> uid = 8, uname = ''bob'' \<rparr> (Some 1)
                \<lparr> rating_b = Str ''4'', comment_b = Num (Fin 5) \<rparr>
          = (Success 201 (Some ''Review added successfully'')
               (Some (exShoe\<lparr> reviews := reviews exShoe
                   @ [\<lparr> user = 8, userName = ''bob'', rating = Fin 4, comment = ''5'',
                        createdAt_r = 50 \<rparr>] \<rparr>)), db')
        \<and> findById db' 2 = findById exDb 2)
   \<and> (\<exists>msg. addReview exEnv exDb 50 \<lparr> uid = 8, uname = ''bob'' \<rparr> (Some 1)
                \<lparr> rating_b = Num (Fin 9), comment_b = Str ''fine'' \<rparr>
          = (Failure 400 msg, exDb))"
proof -
  let ?ann = "\<lparr> uid = 7, uname = ''ann'' \<rparr>" and ?bob = "\<lparr> uid = 8, uname = ''bob'' \<rparr>"
  let ?b1 = "\<lparr> rating_b = Num (Fin 4), comment_b = Str ''again'' \<rparr>"
  let ?b2 = "\<lparr> rating_b = Str ''4'', comment_b = Num (Fin 5) \<rparr>"
  let ?b3 = "\<lparr> rating_b = Num (Fin 9), comment_b = Str ''fine'' \<rparr>"
  let ?r = "\<lparr> user = 8, userName = ''bob'', rating = Fin 4, comment = ''5'', createdAt_r = 50 \<rparr>"
  have h: "findById exDb 1 = Some exShoe"
    by (simp add: exDb_def exShoe_def)
  have ann: "uid ?ann \<in> set (map user (reviews exShoe))"
    by (simp add: exShoe_def)
  have first: "addReview exEnv exDb 50 ?ann (Some 1) ?b1
     = (Failure 400 ''You have already reviewed this product'', exDb)"
    using addReview_one_per_user_checked [OF h, where usr = ?ann and env = exEnv and now = 50
        and b = ?b1, THEN conjunct1, rule_format, OF ann]
    by simp
  have bob: "uid ?bob \<notin> set (map user (reviews exShoe))"
    by (simp add: exShoe_def)
  have ok: "checkedReview exEnv (reviewDraft ?bob 50 ?b2) = Some ?r"
    by code_simp
  have t2: "truthy (rating_b ?b2)" "truthy (comment_b ?b2)"
    by simp_all
  from addReview_one_per_user_checked [OF h, where usr = ?bob and env = exEnv and now = 50
        and b = ?b2, THEN conjunct2, THEN conjunct1, rule_format, of ?r] bob t2 ok
  obtain db' where "addReview exEnv exDb 50 ?bob (Some 1) ?b2
          = (Success 201 (Some ''Review added successfully'')
               (Some (exShoe\<lparr> reviews := reviews exShoe @ [?r] \<rparr>)), db')"
    and "\<forall>j. j \<noteq> 1 \<longrightarrow> findById db' j = findById exDb j"
    by blast
  then have second: "\<exists>db'. addReview exEnv exDb 50 ?bob (Some 1) ?b2
          = (Success 201 (Some ''Review added successfully'')
               (Some (exShoe\<lparr> reviews := reviews exShoe @ [?r] \<rparr>)), db')
        \<and> findById db' 2 = findById exDb 2"
    by auto
  have bad: "checkedReview exEnv (reviewDraft ?bob 50 ?b3) = None"
    by code_simp
  have third: "\<exists>msg. addReview exEnv exDb 50 ?bob (Some 1) ?b3 = (Failure 400 msg, exDb)"
    using addReview_one_per_user_checked [OF h, where usr = ?bob and env = exEnv and now = 50
        and b = ?b3, THEN conjunct2, THEN conjunct2] bob bad
    by blast
  from first second third show ?thesis by blast
qed

section \<open>Review append: rating and comment are required\<close>

text \<open>
  C10. A review submission whose rating or comment is falsy (missing, zero, the empty
  string) is answered with status 400 and the message
  \<^verbatim>\<open>Please provide rating and comment\<close>, whatever the collection holds and whether or
  not the product exists, so before any lookup; the collection is left as it was.
\<close>

theorem addReview_requires_rating_and_comment:
  assumes "\<not> truthy (rating_b body) \<or> \<not> truthy (comment_b body)"
  shows "addReview env db now usr productId body
           = (Failure 400 ''Please provide rating and comment'', db)"
  using assms by (simp add: addReview_def)

theorem addReview_requires_rating_and_comment_witness:
  "addReview exEnv exDb 50 \<lparr> uid = 8, uname = ''bob'' \<rparr> (Some 1)
       \<lparr> rating_b = Num (Fin 0), comment_b = Str ''fine'' \<rparr>
     = (Failure 400 ''Please provide rating and comment'', exDb)"
proof -
  have h: "\<not> truthy (rating_b \<lparr> rating_b = Num (Fin 0), comment_b = Str ''fine'' \<rparr>)
           \<or> \<not> truthy (comment_b \<lparr> rating_b = Num (Fin 0), comment_b = Str ''fine'' \<rparr>)"
    by simp
  show ?thesis by (rule addReview_requires_rating_and_comment [OF h])
qed

section \<open>Concurrent stock adjustments and review submissions\<close>

text \<open>
  C9. The update of a stock adjustment is one increment of the store and the update of a
  review submission is one append of the store; neither writes back a value that the
  handler has read. So, for two requests on one collection whose store calls interleave
  in any way:
  \<^item> two stock adjustments that each make their two store calls end, answers and
    collection, as they do when one of them runs to its end before the other starts;
  \<^item> on the same size, inside the safe-integer range, the stock ends at the old value plus
    both quantities;
  \<^item> with two review submissions on one product, the reviews of the product are at every
    moment those it had, followed by the review of each submission that has been answered
    with a success, once each, and no other product has changed (so also when both come
    from the same user and both pass the check for an existing review);
  \<^item> two review submissions that each make their two store calls are both answered.
\<close>

theorem concurrent_updates_kept:
  "(2 \<le> count_list sched True \<and> 2 \<le> count_list sched False \<longrightarrow>
      interleave stockStep sched (StockStart i1 b1, StockStart i2 b2, db)
        = (StockDone (fst (updateStock db i1 b1)),
           StockDone (fst (updateStock (snd (updateStock db i1 b1)) i2 b2)),
           snd (updateStock (snd (updateStock db i1 b1)) i2 b2))
      \<or> interleave stockStep sched (StockStart i1 b1, StockStart i2 b2, db)
        = (StockDone (fst (updateStock (snd (updateStock db i2 b2)) i1 b1)),
           StockDone (fst (updateStock db i2 b2)),
           snd (updateStock (snd (updateStock db i2 b2)) i1 b1)))
   \<and> (2 \<le> count_list sched True \<and> 2 \<le> count_list sched False
       \<and> findById db i = Some p
       \<and> colors p = cs @ c # cs' \<and> cn \<notin> set (map name_c cs) \<and> name_c c = cn
       \<and> sizes c = ss @ s # ss' \<and> sz \<notin> set (map size_s ss) \<and> size_s s = sz
       \<and> stock s = Fin (of_int a)
       \<and> \<bar>a + d1\<bar> \<le> 2 ^ 53 \<and> \<bar>a + d2\<bar> \<le> 2 ^ 53 \<and> \<bar>a + d1 + d2\<bar> \<le> 2 ^ 53 \<longrightarrow>
      findById
        (snd (snd (interleave stockStep sched
           (StockStart (Some i) \<lparr> colorName = cn, size_b = sz, quantity = Fin (of_int d1) \<rparr>,
            StockStart (Some i) \<lparr> colorName = cn, size_b = sz, quantity = Fin (of_int d2) \<rparr>,
            db)))) i
        = Some (p\<lparr> colors := cs @ c\<lparr> sizes := ss @ s\<lparr> stock := Fin (of_int (a + d1 + d2)) \<rparr> # ss' \<rparr>
                             # cs' \<rparr>))
   \<and> (findById db i = Some p
       \<and> interleave (reviewStep env) sched
           (ReviewStart (Some i) ua na ba, ReviewStart (Some i) ub nb bb, db) = (ta, tb, db') \<longrightarrow>
      (\<exists>la lb.
           (reviewAdded ta \<longrightarrow> (\<exists>r. checkedReview env (reviewDraft ua na ba) = Some r \<and> la = [r]))
         \<and> (\<not> reviewAdded ta \<longrightarrow> la = [])
         \<and> (reviewAdded tb \<longrightarrow> (\<exists>r. checkedReview env (reviewDraft ub nb bb) = Some r \<and> lb = [r]))
         \<and> (\<not> reviewAdded tb \<longrightarrow> lb = [])
         \<and> (findById db' i = Some (p\<lparr> reviews := reviews p @ la @ lb \<rparr>)
             \<or> findById db' i = Some (p\<lparr> reviews := reviews p @ lb @ la \<rparr>))
         \<and> (\<forall>j. j \<noteq> i \<longrightarrow> findById db' j = findById db j)))
   \<and> (2 \<le> count_list sched True \<and> 2 \<le> count_list sched False \<longrightarrow>
      (\<exists>ra rb db''. interleave (reviewStep env) sched
                       (ReviewStart ia ua na ba, ReviewStart ib ub nb bb, db)
                     = (ReviewDone ra, ReviewDone rb, db'')))"
proof (intro conjI impI)
  assume s: "2 \<le> count_list sched True \<and> 2 \<le> count_list sched False"
  then have a1: "stockAwaits (StockStart i1 b1) \<le> count_list sched True"
    and a2: "stockAwaits (StockStart i2 b2) \<le> count_list sched False"
    by simp_all
  from interleave_stock_serial [OF a1 a2, of db]
  show "interleave stockStep sched (StockStart i1 b1, StockStart i2 b2, db)
        = (StockDone (fst (updateStock db i1 b1)),
           StockDone (fst (updateStock (snd (updateStock db i1 b1)) i2 b2)),
           snd (updateStock (snd (updateStock db i1 b1)) i2 b2))
      \<or> interleave stockStep sched (StockStart i1 b1, StockStart i2 b2, db)
        = (StockDone (fst (updateStock (snd (updateStock db i2 b2)) i1 b1)),
           StockDone (fst (updateStock db i2 b2)),
           snd (updateStock (snd (updateStock db i2 b2)) i1 b1))"
    by (simp add: stockRun_updateStock)
next
  assume "2 \<le> count_list sched True \<and> 2 \<le> count_list sched False
       \<and> findById db i = Some p
       \<and> colors p = cs @ c # cs' \<and> cn \<notin> set (map name_c cs) \<and> name_c c = cn
       \<and> sizes c = ss @ s # ss' \<and> sz \<notin> set (map size_s ss) \<and> size_s s = sz
       \<and> stock s = Fin (of_int a)
       \<and> \<bar>a + d1\<bar> \<le> 2 ^ 53 \<and> \<bar>a + d2\<bar> \<le> 2 ^ 53 \<and> \<bar>a + d1 + d2\<bar> \<le> 2 ^ 53"
  then show "findById
        (snd (snd (interleave stockStep sched
           (StockStart (Some i) \<lparr> colorName = cn, size_b = sz, quantity = Fin (of_int d1) \<rparr>,
            StockStart (Some i) \<lparr> colorName = cn, size_b = sz, quantity = Fin (of_int d2) \<rparr>,
            db)))) i
        = Some (p\<lparr> colors := cs @ c\<lparr> sizes := ss @ s\<lparr> stock := Fin (of_int (a + d1 + d2)) \<rparr> # ss' \<rparr>
                             # cs' \<rparr>)"
    by (intro interleave_stock_sum) blast+
next
  assume "findById db i = Some p
       \<and> interleave (reviewStep env) sched
           (ReviewStart (Some i) ua na ba, ReviewStart (Some i) ub nb bb, db) = (ta, tb, db')"
  then have p: "findById db i = Some p"
    and run: "interleave (reviewStep env) sched
           (ReviewStart (Some i) ua na ba, ReviewStart (Some i) ub nb bb, db) = (ta, tb, db')"
    by blast+
  show "\<exists>la lb.
           (reviewAdded ta \<longrightarrow> (\<exists>r. checkedReview env (reviewDraft ua na ba) = Some r \<and> la = [r]))
         \<and> (\<not> reviewAdded ta \<longrightarrow> la = [])
         \<and> (reviewAdded tb \<longrightarrow> (\<exists>r. checkedReview env (reviewDraft ub nb bb) = Some r \<and> lb = [r]))
         \<and> (\<not> reviewAdded tb \<longrightarrow> lb = [])
         \<and> (findById db' i = Some (p\<lparr> reviews := reviews p @ la @ lb \<rparr>)
             \<or> findById db' i = Some (p\<lparr> reviews := reviews p @ lb @ la \<rparr>))
         \<and> (\<forall>j. j \<noteq> i \<longrightarrow> findById db' j = findById db j)"
    by (rule interleave_review_kept [OF p run])
next
  assume "2 \<le> count_list sched True \<and> 2 \<le> count_list sched False"
  then have "reviewAwaits (ReviewStart ia ua na ba) \<le> count_list sched True"
    and "reviewAwaits (ReviewStart ib ub nb bb) \<le> count_list sched False"
    by simp_all
  then show "\<exists>ra rb db''. interleave (reviewStep env) sched
                       (ReviewStart ia ua na ba, ReviewStart ib ub nb bb, db)
                     = (ReviewDone ra, ReviewDone rb, db'')"
    by (rule interleave_review_done)
qed

theorem concurrent_updates_kept_witness:
  "(interleave stockStep [True, False, True, False]
        (StockStart (Some 1) \<lparr> colorName = ''Red'', size_b = ''9'', quantity = Fin (- 3) \<rparr>,
         StockStart (Some 1) \<lparr> colorName = ''Red'', size_b = ''9'', quantity = Fin 5 \<rparr>,
         exDb)
      = (StockDone (fst (updateStock exDb (Some 1)
                           \<lparr> colorName = ''Red'', size_b = ''9'', quantity = Fin (- 3) \<rparr>)),
         StockDone (fst (updateStock
                           (snd (updateStock exDb (Some 1)
                                   \<lparr> colorName = ''Red'', size_b = ''9'', quantity = Fin (- 3) \<rparr>))
                           (Some 1) \<lparr> colorName = ''Red'', size_b = ''9'', quantity = Fin 5 \<rparr>)),
         snd (updateStock
                (snd (updateStock exDb (Some 1)
                        \<lparr> colorName = ''Red'', size_b = ''9'', quantity = Fin (- 3) \<rparr>))
                (Some 1) \<lparr> colorName = ''Red'', size_b = ''9'', quantity = Fin 5 \<rparr>))
    \<or> interleave stockStep [True, False, True, False]
        (StockStart (Some 1) \<lparr> colorName = ''Red'', size_b = ''9'', quantity = Fin (- 3) \<rparr>,
         StockStart (Some 1) \<lparr> colorName = ''Red'', size_b = ''9'', quantity = Fin 5 \<rparr>,
         exDb)
      = (StockDone (fst (updateStock
                           (snd (updateStock exDb (Some 1)
                                   \<lparr> colorName = ''Red'', size_b = ''9'', quantity = Fin 5 \<rparr>))
                           (Some 1) \<lparr> colorName = ''Red'', size_b = ''9'', quantity = Fin (- 3) \<rparr>)),
         StockDone (fst (updateStock exDb (Some 1)
                           \<lparr> colorName = ''Red'', size_b = ''9'', quantity = Fin 5 \<rparr>)),
         snd (updateStock
                (snd (updateStock exDb (Some 1)
                        \<lparr> colorName = ''Red'', size_b = ''9'', quantity = Fin 5 \<rparr>))
                (Some 1) \<lparr> colorName = ''Red'', size_b = ''9'', quantity = Fin (- 3) \<rparr>)))
   \<and> findById
     (snd (snd (interleave stockStep [True, False, True, False]
        (StockStart (Some 1) \<lparr> colorName = ''Red'', size_b = ''9'', quantity = Fin (- 3) \<rparr>,
         StockStart (Some 1) \<lparr> colorName = ''Red'', size_b = ''9'', quantity = Fin 5 \<rparr>,
         exDb)))) 1
     = Some (exShoe\<lparr> colors := [\<lparr> name_c = ''Red'', hexCode = ''#ff0000'',
               sizes = [\<lparr> size_s = ''8'', stock = Fin 4 \<rparr>, \<lparr> size_s = ''9'', stock = Fin 12 \<rparr>] \<rparr>] \<rparr>)
   \<and> (\<exists>ra rb.
        fst (interleave (reviewStep exEnv) [True, False, True, False]
          (ReviewStart (Some 1) \<lparr> uid = 8, uname = ''bob'' \<rparr> 50
             \<lparr> rating_b = Num (Fin 4), comment_b = Str ''fine'' \<rparr>,
           ReviewStart (Some 1) \<lparr> uid = 8, uname = ''bob'' \<rparr> 51
             \<lparr> rating_b = Num (Fin 5), comment_b = Str ''again'' \<rparr>,
           exDb)) = ReviewDone ra \<and> isSuccess ra
      \<and> fst (snd (interleave (reviewStep exEnv) [True, False, True, False]
          (ReviewStart (Some 1) \<lparr> uid = 8, uname = ''bob'' \<rparr> 50
             \<lparr> rating_b = Num (Fin 4), comment_b = Str ''fine'' \<rparr>,
           ReviewStart (Some 1) \<lparr> uid = 8, uname = ''bob'' \<rparr> 51
             \<lparr> rating_b = Num (Fin 5), comment_b = Str ''again'' \<rparr>,
           exDb))) = ReviewDone rb \<and> isSuccess rb)
   \<and> (findById
        (snd (snd (interleave (reviewStep exEnv) [True, False, True, False]
          (ReviewStart (Some 1) \<lparr> uid = 8, uname = ''bob'' \<rparr> 50
             \<lparr> rating_b = Num (Fin 4), comment_b = Str ''fine'' \<rparr>,
           ReviewStart (Some 1) \<lparr> uid = 8, uname = ''bob'' \<rparr> 51
             \<lparr> rating_b = Num (Fin 5), comment_b = Str ''again'' \<rparr>,
           exDb)))) 1
        = Some (exShoe\<lparr> reviews := reviews exShoe
             @ [\<lparr> user = 8, userName = ''bob'', rating = Fin 4, comment = ''fine'', createdAt_r = 50 \<rparr>]
             @ [\<lparr> user = 8, userName = ''bob'', rating = Fin 5, comment = ''again'', createdAt_r = 51 \<rparr>] \<rparr>)
      \<or> findById
        (snd (snd (interleave (reviewStep exEnv) [True, False, True, False]
          (ReviewStart (Some 1) \<lparr> uid = 8, uname = ''bob'' \<rparr> 50
             \<lparr> rating_b = Num (Fin 4), comment_b = Str ''fine'' \<rparr>,
           ReviewStart (Some 1) \<lparr> uid = 8, uname = ''bob'' \<rparr> 51
             \<lparr> rating_b = Num (Fin 5), comment_b = Str ''again'' \<rparr>,
           exDb)))) 1
        = Some (exShoe\<lparr> reviews := reviews exShoe
             @ [\<lparr> user = 8, userName = ''bob'', rating = Fin 5, comment = ''again'', createdAt_r = 51 \<rparr>]
             @ [\<lparr> user = 8, userName = ''bob'', rating = Fin 4, comment = ''fine'', createdAt_r = 50 \<rparr>] \<rparr>))"
proof -
  let ?sched = "[True, False, True, False]"
  let ?red = "\<lparr> name_c = ''Red'', hexCode = ''#ff0000'',
                 sizes = [\<lparr> size_s = ''8'', stock = Fin 4 \<rparr>, \<lparr> size_s = ''9'', stock = Fin 10 \<rparr>] \<rparr>"
  let ?bob = "\<lparr> uid = 8, uname = ''bob'' \<rparr>"
  let ?ba = "\<lparr> rating_b = Num (Fin 4), comment_b = Str ''fine'' \<rparr>"
  let ?bb = "\<lparr> rating_b = Num (Fin 5), comment_b = Str ''again'' \<rparr>"
  let ?ra = "\<lparr> user = 8, userName = ''bob'', rating = Fin 4, comment = ''fine'', createdAt_r = 50 \<rparr>"
  let ?rb = "\<lparr> user = 8, userName = ''bob'', rating = Fin 5, comment = ''again'', createdAt_r = 51 \<rparr>"
  let ?run = "interleave (reviewStep exEnv) ?sched
                (ReviewStart (Some 1) ?bob 50 ?ba, ReviewStart (Some 1) ?bob 51 ?bb, exDb)"
  have cnt: "2 \<le> count_list ?sched True \<and> 2 \<le> count_list ?sched False"
    by simp
  have h: "findById exDb 1 = Some exShoe"
    by (simp add: exDb_def exShoe_def)
  have pre: "2 \<le> count_list ?sched True \<and> 2 \<le> count_list ?sched False
       \<and> findById exDb 1 = Some exShoe
       \<and> colors exShoe = [] @ ?red # [] \<and> ''Red'' \<notin> set (map name_c []) \<and> name_c ?red = ''Red''
       \<and> sizes ?red = [\<lparr> size_s = ''8'', stock = Fin 4 \<rparr>] @ \<lparr> size_s = ''9'', stock = Fin 10 \<rparr> # []
       \<and> ''9'' \<notin> set (map size_s [\<lparr> size_s = ''8'', stock = Fin 4 \<rparr>])
       \<and> size_s \<lparr> size_s = ''9'', stock = Fin 10 \<rparr> = ''9''
       \<and> stock \<lparr> size_s = ''9'', stock = Fin 10 \<rparr> = Fin (of_int 10)
       \<and> \<bar>10 + (- 3 :: int)\<bar> \<le> 2 ^ 53 \<and> \<bar>10 + (5 :: int)\<bar> \<le> 2 ^ 53
       \<and> \<bar>10 + (- 3) + (5 :: int)\<bar> \<le> 2 ^ 53"
    using h by (simp add: exShoe_def)
  have fin: "exShoe\<lparr> colors := [] @ ?red\<lparr> sizes := [\<lparr> size_s = ''8'', stock = Fin 4 \<rparr>]
            @ \<lparr> size_s = ''9'', stock = Fin 10 \<rparr>\<lparr> stock := Fin (of_int (10 + - 3 + 5)) \<rparr> # [] \<rparr> # [] \<rparr>
      = exShoe\<lparr> colors := [\<lparr> name_c = ''Red'', hexCode = ''#ff0000'',
               sizes = [\<lparr> size_s = ''8'', stock = Fin 4 \<rparr>, \<lparr> size_s = ''9'', stock = Fin 12 \<rparr>] \<rparr>] \<rparr>"
    by simp
  have q: "Fin (of_int (- 3)) = Fin (- 3)" "Fin (of_int 5) = Fin 5"
    by simp_all
  note inst = concurrent_updates_kept [where sched = ?sched and db = exDb and i = 1 and p = exShoe
      and env = exEnv]
  have stock: "findById
     (snd (snd (interleave stockStep ?sched
        (StockStart (Some 1) \<lparr> colorName = ''Red'', size_b = ''9'', quantity = Fin (- 3) \<rparr>,
         StockStart (Some 1) \<lparr> colorName = ''Red'', size_b = ''9'', quantity = Fin 5 \<rparr>,
         exDb)))) 1
     = Some (exShoe\<lparr> colors := [\<lparr> name_c = ''Red'', hexCode = ''#ff0000'',
               sizes = [\<lparr> size_s = ''8'', stock = Fin 4 \<rparr>, \<lparr> size_s = ''9'', stock = Fin 12 \<rparr>] \<rparr>] \<rparr>)"
    using inst [THEN conjunct2, THEN conjunct1, rule_format, OF pre] unfolding fin q .
  note serial = inst [where ?i1.0 = "Some 1" and ?i2.0 = "Some 1"
      and ?b1.0 = "\<lparr> colorName = ''Red'', size_b = ''9'', quantity = Fin (- 3) \<rparr>"
      and ?b2.0 = "\<lparr> colorName = ''Red'', size_b = ''9'', quantity = Fin 5 \<rparr>",
      THEN conjunct1, rule_format, OF cnt]
  have both: "\<exists>ra rb db''. ?run = (ReviewDone ra, ReviewDone rb, db'')"
    using inst [THEN conjunct2, THEN conjunct2, THEN conjunct2, rule_format, OF cnt] .
  have added: "reviewAdded (fst ?run)" "reviewAdded (fst (snd ?run))"
    by code_simp+
  from both added have answers: "\<exists>ra rb. fst ?run = ReviewDone ra \<and> isSuccess ra
      \<and> fst (snd ?run) = ReviewDone rb \<and> isSuccess rb"
    by auto
  have ca: "checkedReview exEnv (reviewDraft ?bob 50 ?ba) = Some ?ra"
    and cb: "checkedReview exEnv (reviewDraft ?bob 51 ?bb) = Some ?rb"
    by code_simp+
  have run: "findById exDb 1 = Some exShoe \<and> ?run = (fst ?run, fst (snd ?run), snd (snd ?run))"
    using h by simp
  from inst [THEN conjunct2, THEN conjunct2, THEN conjunct1, rule_format, OF run]
  obtain la lb where
    "reviewAdded (fst ?run) \<longrightarrow> (\<exists>r. checkedReview exEnv (reviewDraft ?bob 50 ?ba) = Some r \<and> la = [r])"
    and "reviewAdded (fst (snd ?run)) \<longrightarrow>
           (\<exists>r. checkedReview exEnv (reviewDraft ?bob 51 ?bb) = Some r \<and> lb = [r])"
    and "findById (snd (snd ?run)) 1 = Some (exShoe\<lparr> reviews := reviews exShoe @ la @ lb \<rparr>)
           \<or> findById (snd (snd ?run)) 1 = Some (exShoe\<lparr> reviews := reviews exShoe @ lb @ la \<rparr>)"
    by blast
  with added ca cb
  have kept: "findById (snd (snd ?run)) 1 = Some (exShoe\<lparr> reviews := reviews exShoe @ [?ra] @ [?rb] \<rparr>)
           \<or> findById (snd (snd ?run)) 1 = Some (exShoe\<lparr> reviews := reviews exShoe @ [?rb] @ [?ra] \<rparr>)"
    by auto
  from serial stock answers kept show ?thesis
    by (intro conjI)
qed

end
